theory Spec2Isabelle
  imports Main
begin

section \<open>JavaScript strings and values\<close>

text \<open>
  Strings are character lists. The characters are single bytes, so the model covers
  the ASCII part of JavaScript's UTF-16 strings; the character classes below are the
  ASCII part of the classes of the same name in a JavaScript regular expression.
\<close>

definition LF :: char where
  "LF = CHR 0x0A"


definition is_space :: "char \<Rightarrow> bool" where
  "is_space c = (c \<in> set [CHR '' '', CHR 0x09, CHR 0x0A, CHR 0x0B, CHR 0x0C, CHR 0x0D])"

definition is_digit :: "char \<Rightarrow> bool" where
  "is_digit c = (c \<in> set ''0123456789'')"

definition is_word :: "char \<Rightarrow> bool" where
  "is_word c = (c \<in> set ''abcdefghijklmnopqrstuvwxyzABCDEFGHIJKLMNOPQRSTUVWXYZ0123456789_'')"


text \<open>\<^verbatim>\<open>`${n}`\<close> for a non-negative integer \<open>n\<close>: its decimal digits.\<close>

definition digit_char :: "nat \<Rightarrow> char" where
  "digit_char d = ''0123456789'' ! d"

fun show_nat :: "nat \<Rightarrow> string" where
  "show_nat n = (if n < 10 then [digit_char n] else show_nat (n div 10) @ [digit_char (n mod 10)])"

declare show_nat.simps [simp del]

text \<open>\<^verbatim>\<open>s.trim()\<close>, \<^verbatim>\<open>s.startsWith(p)\<close>, \<^verbatim>\<open>s.endsWith(p)\<close>, \<^verbatim>\<open>s.includes(p)\<close>.\<close>

definition js_trim :: "string \<Rightarrow> string" where
  "js_trim s = rev (dropWhile is_space (rev (dropWhile is_space s)))"

definition js_startsWith :: "string \<Rightarrow> string \<Rightarrow> bool" where
  "js_startsWith s p = (take (length p) s = p)"

definition js_endsWith :: "string \<Rightarrow> string \<Rightarrow> bool" where
  "js_endsWith s p = (length p \<le> length s \<and> drop (length s - length p) s = p)"

fun js_includes :: "string \<Rightarrow> string \<Rightarrow> bool" where
  "js_includes [] p = (p = [])"
| "js_includes (c # cs) p = (js_startsWith (c # cs) p \<or> js_includes cs p)"

text \<open>
  \<^verbatim>\<open>s.split(sep)\<close> for a separator of one character: the pieces between the
  separators, never the empty array; \<^verbatim>\<open>text.split('\n')\<close>; \<^verbatim>\<open>pieces.join(sep)\<close>;
  \<^verbatim>\<open>s.indexOf(t)\<close>, which is \<open>-1\<close> when \<open>t\<close> does not occur.
\<close>

fun js_split :: "char \<Rightarrow> string \<Rightarrow> string list" where
  "js_split sep [] = [[]]"
| "js_split sep (c # cs) =
     (if c = sep then [] # js_split sep cs
      else (case js_split sep cs of l # ls \<Rightarrow> (c # l) # ls | [] \<Rightarrow> [[c]]))"

definition split_lines :: "string \<Rightarrow> string list" where
  "split_lines text = js_split LF text"

fun js_join :: "string \<Rightarrow> string list \<Rightarrow> string" where
  "js_join sep [] = []"
| "js_join sep [p] = p"
| "js_join sep (p # ps) = p @ sep @ js_join sep ps"

fun js_indexOf :: "string \<Rightarrow> string \<Rightarrow> int" where
  "js_indexOf [] t = (if t = [] then 0 else - 1)"
| "js_indexOf (c # cs) t =
     (if js_startsWith (c # cs) t then 0
      else (let i = js_indexOf cs t in if i < 0 then - 1 else i + 1))"

text \<open>A thrown \<^verbatim>\<open>Error\<close>: its message and, when the host gives one, its stack.\<close>

record js_error =
  message :: string
  stack :: "string option"

text \<open>
  The values a module can export. A number is an integer here: the sources only test
  a number for truthiness and pass it on. A function takes a string and returns a
  string or throws, which is all that is asked of \<^verbatim>\<open>toCode\<close>.
\<close>

datatype jsval =
  JUndefined
  | JNull
  | JBool bool
  | JNum int
  | JStr string
  | JObj "(string \<times> jsval) list"
  | JFun "string \<Rightarrow> js_error + string"

fun truthy :: "jsval \<Rightarrow> bool" where
  "truthy JUndefined = False"
| "truthy JNull = False"
| "truthy (JBool b) = b"
| "truthy (JNum n) = (n \<noteq> 0)"
| "truthy (JStr s) = (s \<noteq> [])"
| "truthy (JObj ps) = True"
| "truthy (JFun f) = True"

text \<open>
  \<^verbatim>\<open>v[name]\<close> on a value that is neither null nor undefined. Only own properties of
  objects are modelled: a primitive has none of the properties read here.
\<close>

fun get_prop :: "jsval \<Rightarrow> string \<Rightarrow> jsval" where
  "get_prop (JObj ps) k = (case map_of ps k of Some v \<Rightarrow> v | None \<Rightarrow> JUndefined)"
| "get_prop v k = JUndefined"

section \<open>Regular expressions\<close>

text \<open>
  The fragment of JavaScript's regular expressions that the sources use: literal text,
  one character of a class, a greedy or lazy repetition of one character of a class, a
  capture group, a back-reference, the start anchor and sequencing. A match is tried
  by backtracking, and the alternatives come in the engine's order of preference.
\<close>

datatype regex =
  Lit string
  | Cls "char \<Rightarrow> bool"
  | Star "char \<Rightarrow> bool"
  | Plus "char \<Rightarrow> bool"
  | LazyStar "char \<Rightarrow> bool"
  | Group nat regex
  | Backref nat
  | Bol
  | Seq regex regex

type_synonym captures = "nat \<Rightarrow> string option"

text \<open>
  \<open>rmatch r s i caps\<close>: every way to match \<open>r\<close> in \<open>s\<close> from position \<open>i\<close>, as
  the end position and the captures, the preferred way first. A back-reference to a
  group that has not taken part matches the empty string.
\<close>

fun rmatch :: "regex \<Rightarrow> string \<Rightarrow> nat \<Rightarrow> captures \<Rightarrow> (nat \<times> captures) list" where
  "rmatch (Lit t) s i caps =
     (if take (length t) (drop i s) = t then [(i + length t, caps)] else [])"
| "rmatch (Cls P) s i caps =
     (case drop i s of c # _ \<Rightarrow> (if P c then [(Suc i, caps)] else []) | [] \<Rightarrow> [])"
| "rmatch (Star P) s i caps =
     map (\<lambda>n. (i + n, caps)) (rev [0 ..< Suc (length (takeWhile P (drop i s)))])"
| "rmatch (Plus P) s i caps =
     map (\<lambda>n. (i + n, caps)) (rev [1 ..< Suc (length (takeWhile P (drop i s)))])"
| "rmatch (LazyStar P) s i caps =
     map (\<lambda>n. (i + n, caps)) [0 ..< Suc (length (takeWhile P (drop i s)))]"
| "rmatch (Group g r) s i caps =
     map (\<lambda>(e, cs). (e, cs(g \<mapsto> take (e - i) (drop i s)))) (rmatch r s i caps)"
| "rmatch (Backref g) s i caps =
     (let t = (case caps g of Some t \<Rightarrow> t | None \<Rightarrow> [])
      in if take (length t) (drop i s) = t then [(i + length t, caps)] else [])"
| "rmatch Bol s i caps = (if i = 0 then [(i, caps)] else [])"
| "rmatch (Seq r1 r2) s i caps =
     concat (map (\<lambda>(e, cs). rmatch r2 s e cs) (rmatch r1 s i caps))"

text \<open>
  The result of \<^verbatim>\<open>regex.exec(s)\<close>: where the match starts and ends, and its groups.
\<close>

record rx_match =
  m_index :: nat
  m_end :: nat
  m_groups :: captures

text \<open>
  \<open>match_at\<close> is the preferred match that starts at position \<open>i\<close>; \<open>exec_from\<close>
  is \<^verbatim>\<open>exec\<close> with \<^verbatim>\<open>lastIndex = i\<close>: the leftmost start position at or after
  \<open>i\<close> that has a match.
\<close>

definition match_at :: "regex \<Rightarrow> string \<Rightarrow> nat \<Rightarrow> rx_match option" where
  "match_at r s i =
     (case rmatch r s i (\<lambda>_. None) of
        [] \<Rightarrow> None
      | (e, cs) # _ \<Rightarrow> Some \<lparr>m_index = i, m_end = e, m_groups = cs\<rparr>)"

fun first_match :: "regex \<Rightarrow> string \<Rightarrow> nat list \<Rightarrow> rx_match option" where
  "first_match r s [] = None"
| "first_match r s (i # is) =
     (case match_at r s i of Some m \<Rightarrow> Some m | None \<Rightarrow> first_match r s is)"

definition exec_from :: "regex \<Rightarrow> string \<Rightarrow> nat \<Rightarrow> rx_match option" where
  "exec_from r s i = first_match r s [i ..< Suc (length s)]"


definition one_of :: "string \<Rightarrow> char \<Rightarrow> bool" where
  "one_of cs c = (c \<in> set cs)"

text \<open>A sequence of several parts, and \<^verbatim>\<open>s.match(r)\<close> for a pattern without flags.\<close>

fun seqs :: "regex list \<Rightarrow> regex" where
  "seqs [] = Lit []"
| "seqs [r] = r"
| "seqs (r # rs) = Seq r (seqs rs)"

definition js_match :: "string \<Rightarrow> regex \<Rightarrow> rx_match option" where
  "js_match s r = exec_from r s 0"

definition group :: "rx_match \<Rightarrow> nat \<Rightarrow> string" where
  "group m g = (case m_groups m g of Some t \<Rightarrow> t | None \<Rightarrow> [])"


section \<open>The module cache of the line tracker\<close>

text \<open>
  \<^verbatim>\<open>_loadSmilesModule(filePath)\<close> of \<^verbatim>\<open>src/lineTracker.js\<close>. The cache is the
  \<^verbatim>\<open>Map\<close> \<^verbatim>\<open>_smilesModuleCache\<close> from key strings to module namespace objects.
  What the file system and the module host answer is a parameter: \<open>statSync\<close> gives
  the modification time in milliseconds or throws, \<open>requirePurge\<close> is
  \<^verbatim>\<open>delete require.cache[require.resolve(filePath)]\<close>, which may throw, and
  \<open>dynamicImport\<close> is what the awaited \<^verbatim>\<open>import()\<close> of line 131 answers when the
  call is made; the subsection on the module host derives it from the clock and the
  host's module map. The modification time is a natural number of milliseconds.
  \<open>loadSmilesModule\<close> is a call that runs to its end with no other call in between;
  the calls that overlap at the \<^verbatim>\<open>await\<close> are the subject of a subsection of their
  own.
\<close>

type_synonym module_cache = "string \<rightharpoonup> jsval"

record loader_host =
  statSync :: "string \<Rightarrow> js_error + nat"
  requirePurge :: "string \<Rightarrow> js_error option"
  dynamicImport :: "string \<Rightarrow> js_error + jsval"

text \<open>The operations of one load, in the order in which they are executed.\<close>

datatype cache_op =
  StatSync string
  | CacheHas string
  | CacheGet string
  | RequirePurge string
  | DynamicImport string
  | CacheClear
  | CacheSet string

record load_result =
  lr_module :: jsval
  lr_error :: "string option"

definition cacheKey :: "string \<Rightarrow> nat \<Rightarrow> string" where
  "cacheKey filePath mtimeMs = filePath @ '':'' @ show_nat mtimeMs"

text \<open>The pattern \<^verbatim>\<open>/:(\d+):\d+/\<close> that finds a line number in a stack or message.\<close>

definition lineColPattern :: regex where
  "lineColPattern =
     seqs [Lit '':'', Group 1 (Plus is_digit), Lit '':'', Plus is_digit]"

definition loadErrorMessage :: "js_error \<Rightarrow> string" where
  "loadErrorMessage err =
     (let lineMatch =
            (case (case stack err of Some st \<Rightarrow> exec_from lineColPattern st 0 | None \<Rightarrow> None) of
               Some m \<Rightarrow> Some m
             | None \<Rightarrow> exec_from lineColPattern (message err) 0)
      in case lineMatch of
           Some m \<Rightarrow> ''Line '' @ group m 1 @ '': '' @ message err
         | None \<Rightarrow> message err)"

text \<open>
  The part of the load that runs inside \<^verbatim>\<open>try\<close>: the purge and the import, then the
  clear and the store; the \<^verbatim>\<open>catch\<close> clears the cache and returns the message.
\<close>

definition loadFresh ::
  "'a loader_host_scheme \<Rightarrow> string \<Rightarrow> string \<Rightarrow> load_result \<times> module_cache \<times> cache_op list" where
  "loadFresh h filePath key =
     (case requirePurge h filePath of
        Some err \<Rightarrow>
          (\<lparr>lr_module = JNull, lr_error = Some (loadErrorMessage err)\<rparr>, Map.empty,
           [RequirePurge filePath, CacheClear])
      | None \<Rightarrow>
          (case dynamicImport h filePath of
             Inr m \<Rightarrow>
               (\<lparr>lr_module = m, lr_error = None\<rparr>, [key \<mapsto> m],
                [RequirePurge filePath, DynamicImport filePath, CacheClear, CacheSet key])
           | Inl err \<Rightarrow>
               (\<lparr>lr_module = JNull, lr_error = Some (loadErrorMessage err)\<rparr>, Map.empty,
                [RequirePurge filePath, DynamicImport filePath, CacheClear])))"

text \<open>
  The whole load. \<^verbatim>\<open>fs.statSync\<close> is outside the \<^verbatim>\<open>try\<close>: when it throws, the
  load throws (\<open>Inl\<close>) and the cache is as it was.
\<close>

definition loadSmilesModule ::
  "'a loader_host_scheme \<Rightarrow> module_cache \<Rightarrow> string \<Rightarrow>
     (js_error + load_result) \<times> module_cache \<times> cache_op list" where
  "loadSmilesModule h cache filePath =
     (case statSync h filePath of
        Inl err \<Rightarrow> (Inl err, cache, [StatSync filePath])
      | Inr mtimeMs \<Rightarrow>
          (let key = cacheKey filePath mtimeMs
           in case cache key of
                Some m \<Rightarrow>
                  (Inr \<lparr>lr_module = m, lr_error = None\<rparr>, cache,
                   [StatSync filePath, CacheHas key, CacheGet key])
              | None \<Rightarrow>
                  (case loadFresh h filePath key of
                     (r, cache', ops) \<Rightarrow>
                       (Inr r, cache', [StatSync filePath, CacheHas key] @ ops))))"

text \<open>
  The cache after a sequence of completed loads; each load has its own answers of the
  host, since files change between loads.
\<close>

definition load_step :: "module_cache \<Rightarrow> 'a loader_host_scheme \<times> string \<Rightarrow> module_cache" where
  "load_step cache call = fst (snd (loadSmilesModule (fst call) cache (snd call)))"

definition cache_after :: "('a loader_host_scheme \<times> string) list \<Rightarrow> module_cache" where
  "cache_after calls = foldl load_step Map.empty calls"

text \<open>
  \<open>stored_by calls p t m\<close>: in the sequence \<open>calls\<close> there is a load of the file
  \<open>p\<close> that read the modification time \<open>t\<close>, missed the cache, and whose import was
  executed and answered \<open>m\<close>. This says under which key \<open>m\<close> was stored; whether
  \<open>m\<close> is what the text of that time evaluates to depends on the module host.
\<close>

definition stored_by :: "('a loader_host_scheme \<times> string) list \<Rightarrow> string \<Rightarrow> nat \<Rightarrow> jsval \<Rightarrow> bool" where
  "stored_by calls p t m =
     (\<exists>pre h post. calls = pre @ (h, p) # post \<and> statSync h p = Inr t
        \<and> cache_after pre (cacheKey p t) = None
        \<and> requirePurge h p = None \<and> dynamicImport h p = Inr m)"


subsection \<open>Loads that overlap\<close>

text \<open>
  Loads that overlap. A call of the loader runs without interruption up to its
  \<^verbatim>\<open>await\<close>: it reads the modification time and looks the key up; on a miss it
  purges the \<^verbatim>\<open>require\<close> cache, and when the purge throws, the \<^verbatim>\<open>catch\<close> clears the
  cache at once. Otherwise the call waits for its import, and other calls may run
  before the import settles; then the call clears the cache, and stores the module if
  there is one. \<open>loadBegin\<close> is the part of a call before the purge.
\<close>

datatype load_begin = Threw js_error | Returned load_result | Awaiting string

definition loadBegin :: "'a loader_host_scheme \<Rightarrow> module_cache \<Rightarrow> string \<Rightarrow> load_begin" where
  "loadBegin h cache filePath =
     (case statSync h filePath of
        Inl err \<Rightarrow> Threw err
      | Inr mtimeMs \<Rightarrow>
          (case cache (cacheKey filePath mtimeMs) of
             Some m \<Rightarrow> Returned \<lparr>lr_module = m, lr_error = None\<rparr>
           | None \<Rightarrow> Awaiting (cacheKey filePath mtimeMs)))"

text \<open>
  An event is a call, with the host as the call finds it, or the settling of the
  import of a call that waits, given by its place among the waiting calls. The state
  is the cache and the waiting calls, each with its host, its file and its key.
\<close>

datatype 'a load_event = Call "'a loader_host_scheme" string | Settle nat

type_synonym 'a waiting = "('a loader_host_scheme \<times> string \<times> string) list"

fun overlap_step :: "module_cache \<times> 'a waiting \<Rightarrow> 'a load_event \<Rightarrow> module_cache \<times> 'a waiting" where
  "overlap_step (cache, waiting) (Call h filePath) =
     (case loadBegin h cache filePath of
        Awaiting key \<Rightarrow>
          (case requirePurge h filePath of
             Some err \<Rightarrow> (Map.empty, waiting)
           | None \<Rightarrow> (cache, waiting @ [(h, filePath, key)]))
      | _ \<Rightarrow> (cache, waiting))"
| "overlap_step (cache, waiting) (Settle i) =
     (if i < length waiting
      then (case waiting ! i of
              (h, filePath, key) \<Rightarrow>
                ((case dynamicImport h filePath of Inr m \<Rightarrow> [key \<mapsto> m] | Inl err \<Rightarrow> Map.empty),
                 take i waiting @ drop (Suc i) waiting))
      else (cache, waiting))"

definition overlapped :: "'a load_event list \<Rightarrow> module_cache \<times> 'a waiting" where
  "overlapped events = foldl overlap_step (Map.empty, []) events"

text \<open>
  \<open>imported_at events p t m\<close>: among \<open>events\<close> there is a call for the file \<open>p\<close>
  that read the modification time \<open>t\<close> and whose import gave \<open>m\<close>.
\<close>

definition imported_at :: "'a load_event list \<Rightarrow> string \<Rightarrow> nat \<Rightarrow> jsval \<Rightarrow> bool" where
  "imported_at events p t m =
     (\<exists>h. Call h p \<in> set events \<and> statSync h p = Inr t \<and> requirePurge h p = None
        \<and> dynamicImport h p = Inr m)"

definition entries_imported :: "'a load_event list \<Rightarrow> module_cache \<Rightarrow> bool" where
  "entries_imported events cache =
     (\<forall>k m. cache k = Some m \<longrightarrow> (\<exists>p t. k = cacheKey p t \<and> imported_at events p t m))"

definition waiting_called :: "'a load_event list \<Rightarrow> 'a waiting \<Rightarrow> bool" where
  "waiting_called events waiting =
     (\<forall>h p key. (h, p, key) \<in> set waiting \<longrightarrow>
        Call h p \<in> set events \<and> requirePurge h p = None
        \<and> (\<exists>t. statSync h p = Inr t \<and> key = cacheKey p t))"

definition overlap_inv :: "'a load_event list \<Rightarrow> module_cache \<times> 'a waiting \<Rightarrow> bool" where
  "overlap_inv events s =
     (finite (dom (fst s)) \<and> card (dom (fst s)) \<le> 1
      \<and> entries_imported events (fst s) \<and> waiting_called events (snd s))"

subsection \<open>The invariant of the cache, and hosts for examples\<close>

text \<open>
  After the loads \<open>calls\<close> the cache has at most one entry, and an entry is under the
  key of a file and of the modification time that the load which stored it had read.
\<close>

definition cache_inv :: "('a loader_host_scheme \<times> string) list \<Rightarrow> module_cache \<Rightarrow> bool" where
  "cache_inv calls c =
     (finite (dom c) \<and> card (dom c) \<le> 1
      \<and> (\<forall>k m. c k = Some m \<longrightarrow> (\<exists>p t. k = cacheKey p t \<and> stored_by calls p t m)))"

text \<open>A host whose file has the modification time 7 and exports nothing.\<close>

definition demo_loader :: loader_host where
  "demo_loader = \<lparr>statSync = (\<lambda>_. Inr 7), requirePurge = (\<lambda>_. None),
     dynamicImport = (\<lambda>_. Inr (JObj []))\<rparr>"


definition failing_loader :: loader_host where
  "failing_loader = \<lparr>statSync = (\<lambda>_. Inr 7), requirePurge = (\<lambda>_. None),
     dynamicImport = (\<lambda>_. Inl \<lparr>message = ''boom'', stack = None\<rparr>)\<rparr>"

subsection \<open>The module host: the clock and the module map\<close>

text \<open>
  What \<^verbatim>\<open>import()\<close> answers comes from the module host. The specifier of line 131 is
  the URL of the file with the token \<^verbatim>\<open>?t=${Date.now()}\<close>, the clock in whole
  milliseconds. The host keeps a module map from specifiers to namespaces: a specifier
  that it has loaded gives the same namespace again and the file is not read; a new
  specifier evaluates the text that the file has now. A file is given by its
  modification time and by what its present text evaluates to, a namespace or an
  exception. \<open>hostOf\<close> is the host as a call of the loader finds it.
  \<^verbatim>\<open>pathToFileURL\<close> puts the scheme before the path; the paths here have no
  character that a URL escapes.
\<close>

record platform =
  files :: "string \<rightharpoonup> nat \<times> (js_error + jsval)"
  now :: nat
  moduleMap :: "string \<rightharpoonup> jsval"

definition pathToFileURL :: "string \<Rightarrow> string" where
  "pathToFileURL filePath = ''file://'' @ filePath"

definition importSpecifier :: "string \<Rightarrow> nat \<Rightarrow> string" where
  "importSpecifier filePath dateNow = pathToFileURL filePath @ ''?t='' @ show_nat dateNow"

definition noSuchFile :: js_error where
  "noSuchFile = \<lparr>message = ''ENOENT: no such file or directory'', stack = None\<rparr>"

definition hostImport :: "platform \<Rightarrow> string \<Rightarrow> js_error + jsval" where
  "hostImport w filePath =
     (case moduleMap w (importSpecifier filePath (now w)) of
        Some m \<Rightarrow> Inr m
      | None \<Rightarrow>
          (case files w filePath of
             Some (mtimeMs, exports) \<Rightarrow> exports
           | None \<Rightarrow> Inl noSuchFile))"

definition hostOf :: "platform \<Rightarrow> loader_host" where
  "hostOf w =
     \<lparr>statSync = (\<lambda>filePath. case files w filePath of
                                 Some (mtimeMs, exports) \<Rightarrow> Inr mtimeMs
                               | None \<Rightarrow> Inl noSuchFile),
      requirePurge = (\<lambda>filePath. case files w filePath of
                                     Some f \<Rightarrow> None
                                   | None \<Rightarrow> Some noSuchFile),
      dynamicImport = hostImport w\<rparr>"

text \<open>
  A load on the platform: the loader runs against the host as it is, and an import that
  was executed and gave a namespace leaves it in the module map under its specifier;
  what the host keeps of an import that threw is not modelled. Between loads a file is
  written, which gives it a new text and a new modification time, and the clock goes
  on.
\<close>

definition loadOn ::
  "platform \<Rightarrow> module_cache \<Rightarrow> string \<Rightarrow> (js_error + load_result) \<times> module_cache \<times> platform" where
  "loadOn w cache filePath =
     (case loadSmilesModule (hostOf w) cache filePath of
        (res, cache', ops) \<Rightarrow>
          (res, cache',
           if DynamicImport filePath \<in> set ops
           then (case hostImport w filePath of
                   Inr m \<Rightarrow> w\<lparr>moduleMap := (moduleMap w)(importSpecifier filePath (now w) \<mapsto> m)\<rparr>
                 | Inl err \<Rightarrow> w)
           else w))"

definition writeFile :: "platform \<Rightarrow> string \<Rightarrow> nat \<Rightarrow> js_error + jsval \<Rightarrow> platform" where
  "writeFile w filePath mtimeMs exports = w\<lparr>files := (files w)(filePath \<mapsto> (mtimeMs, exports))\<rparr>"

definition tick :: "platform \<Rightarrow> nat \<Rightarrow> platform" where
  "tick w ms = w\<lparr>now := now w + ms\<rparr>"

text \<open>
  \<open>captured_now w filePath m\<close>: \<open>m\<close> is what the text that the file has now, at
  its present modification time, evaluates to.
\<close>

definition captured_now :: "platform \<Rightarrow> string \<Rightarrow> jsval \<Rightarrow> bool" where
  "captured_now w filePath m =
     (case files w filePath of
        Some (mtimeMs, Inr exports) \<Rightarrow> m = exports
      | _ \<Rightarrow> False)"

text \<open>
  A file that exports water, loaded in the millisecond 5000; the same file rewritten to
  export hydrogen peroxide within that millisecond.
\<close>

definition old_exports :: jsval where
  "old_exports = JObj [(''water'', JObj [(''smiles'', JStr ''O'')])]"

definition new_exports :: jsval where
  "new_exports = JObj [(''water'', JObj [(''smiles'', JStr ''OO'')])]"

definition first_platform :: platform where
  "first_platform =
     \<lparr>files = [''w.smiles.js'' \<mapsto> (4999, Inr old_exports)], now = 5000, moduleMap = Map.empty\<rparr>"

definition loaded_platform :: platform where
  "loaded_platform =
     \<lparr>files = [''w.smiles.js'' \<mapsto> (4999, Inr old_exports)], now = 5000,
      moduleMap = [''file://w.smiles.js?t=5000'' \<mapsto> old_exports]\<rparr>"

definition rewritten_platform :: platform where
  "rewritten_platform = writeFile loaded_platform ''w.smiles.js'' 5000 (Inr new_exports)"

section \<open>The line tracker\<close>

subsection \<open>Documents, the DSL engine and the host\<close>

text \<open>
  A document of the editor, as the tracker reads it: \<open>lineAt\<close> throws for a line
  that the document does not have. A document is identified by its URI.
\<close>

record document =
  fileName :: string
  languageId :: string
  fsPath :: string
  getText :: string
  lineAt :: "nat \<Rightarrow> js_error + string"

text \<open>
  A token of a definition is a string, a \<^verbatim>\<open>REPEAT_CALL\<close> object or something else,
  which is kept as its \<^verbatim>\<open>String(token)\<close>.
\<close>

datatype token =
  TString string
  | RepeatCall string nat
  | TOther string

record dsl_definition =
  d_name :: string
  d_line :: int
  d_tokens :: "token list option"

text \<open>An error or a warning of the DSL engine; an absent field is \<open>None\<close>.\<close>

record issue =
  i_line :: "int option"
  i_column :: "int option"
  i_endColumn :: "int option"
  i_type :: "string option"
  i_severity :: "string option"
  i_message :: string
  i_code :: "string option"

record parse_result =
  pr_definitions :: "dsl_definition list option"
  pr_errors :: "issue list option"
  pr_warnings :: "issue list option"

text \<open>
  What the tracker asks of its surroundings: the open documents by URI, the document
  of the active editor, the functions of the DSL engine (each may throw), and the
  file system and module host of the loader.
\<close>

record host = loader_host +
  docs :: "string \<Rightarrow> document"
  activeTextEditor :: "string option"
  loadWithImports :: "string \<Rightarrow> string \<Rightarrow> js_error + parse_result"
  resolve :: "parse_result \<Rightarrow> string \<Rightarrow> js_error + jsval"
  decode :: "jsval \<Rightarrow> js_error + jsval"
  getMolecularWeight :: "jsval \<Rightarrow> js_error + jsval"
  getFormula :: "jsval \<Rightarrow> js_error + jsval"

text \<open>
  The object that the tracker fires. A key that the object literal does not have is
  \<open>JUndefined\<close>.
\<close>

record lineInfo =
  li_line :: nat
  li_name :: jsval
  li_expression :: jsval
  li_selfies :: jsval
  li_smiles :: jsval
  li_molecularWeight :: jsval
  li_formula :: jsval
  li_error :: jsval

text \<open>
  What is done to a document: one \<^verbatim>\<open>editor.edit\<close> with its insertions, each at a
  line and a column, and \<^verbatim>\<open>document.save()\<close>.
\<close>

datatype doc_edit =
  Edit "(nat \<times> nat \<times> string) list"
  | Save

record tracker =
  currentLine :: "nat option"
  currentDocument :: "string option"
  parseResult :: "parse_result option"
  smilesModuleCache :: module_cache

text \<open>
  What a handler of the tracker does: the state it leaves, the values it fires on
  \<^verbatim>\<open>onDidChangeCurrentLine\<close> (\<open>None\<close> is \<^verbatim>\<open>null\<close>) and the edits it makes.
\<close>

record reaction =
  next_state :: tracker
  fired :: "lineInfo option list"
  edits :: "doc_edit list"

definition idle :: "tracker \<Rightarrow> reaction" where
  "idle st = \<lparr>next_state = st, fired = [], edits = []\<rparr>"

definition fire :: "tracker \<Rightarrow> lineInfo option \<Rightarrow> doc_edit list \<Rightarrow> reaction" where
  "fire st info es = \<lparr>next_state = st, fired = [info], edits = es\<rparr>"

definition isSupportedFile :: "document \<Rightarrow> bool" where
  "isSupportedFile document =
     (languageId document = ''selfies'' \<or> js_endsWith (fileName document) ''.smiles.js'')"

subsection \<open>Formatting tokens, finding a declaration\<close>

fun formatToken :: "token \<Rightarrow> string" where
  "formatToken (TString t) = t"
| "formatToken (RepeatCall pattern count) =
     ''repeat('' @ pattern @ '', '' @ show_nat count @ '')''"
| "formatToken (TOther t) = t"

definition formatTokens :: "token list \<Rightarrow> string" where
  "formatTokens tokens = concat (map formatToken tokens)"

text \<open>
  \<^verbatim>\<open>/export\s+const\s+(\w+)\s*=/\<close> and \<^verbatim>\<open>/^(\s*)const\s+(\w+)\s*=/\<close>.
\<close>

definition exportConstPattern :: regex where
  "exportConstPattern =
     seqs [Lit ''export'', Plus is_space, Lit ''const'', Plus is_space,
           Group 1 (Plus is_word), Star is_space, Lit ''='']"

definition bareConstPattern :: regex where
  "bareConstPattern =
     seqs [Bol, Group 1 (Star is_space), Lit ''const'', Plus is_space,
           Group 2 (Plus is_word), Star is_space, Lit ''='']"

record const_info =
  ci_name :: string
  needsExport :: bool
  constPosition :: "nat option"

definition findConstAtLine :: "string \<Rightarrow> nat \<Rightarrow> const_info option" where
  "findConstAtLine text lineNumber =
     (let lines = split_lines text
      in if length lines \<le> lineNumber then None
         else let line = lines ! lineNumber
              in if line = [] then None
                 else case js_match line exportConstPattern of
                        Some exportMatch \<Rightarrow>
                          Some \<lparr>ci_name = group exportMatch 1, needsExport = False,
                                constPosition = None\<rparr>
                      | None \<Rightarrow>
                          (case js_match line bareConstPattern of
                             Some constMatch \<Rightarrow>
                               Some \<lparr>ci_name = group constMatch 2, needsExport = True,
                                     constPosition = Some (length (group constMatch 1))\<rparr>
                           | None \<Rightarrow> None))"

subsection \<open>Resolving the current line\<close>

text \<open>The object of the outer \<^verbatim>\<open>catch\<close>: the line and the message.\<close>

definition errorInfo :: "nat \<Rightarrow> string \<Rightarrow> lineInfo" where
  "errorInfo n msg =
     \<lparr>li_line = n, li_name = JUndefined, li_expression = JUndefined, li_selfies = JUndefined,
      li_smiles = JUndefined, li_molecularWeight = JUndefined, li_formula = JUndefined,
      li_error = JStr msg\<rparr>"

text \<open>
  The branch for \<^verbatim>\<open>.smiles.js\<close> files. The edit that adds \<^verbatim>\<open>export\<close> and the save
  are taken to succeed. A \<^verbatim>\<open>statSync\<close> that throws inside the loader ends in the
  outer \<^verbatim>\<open>catch\<close>.
\<close>

definition smilesJSLineInfo ::
  "host \<Rightarrow> tracker \<Rightarrow> string \<Rightarrow> nat \<Rightarrow> string \<Rightarrow> reaction" where
  "smilesJSLineInfo h st uri n lineText =
     (if lineText = [] \<or> js_startsWith lineText ''//'' \<or> js_startsWith lineText ''/*''
      then fire st None []
      else case findConstAtLine (getText (docs h uri)) n of
             None \<Rightarrow> fire st None []
           | Some constInfo \<Rightarrow>
               (let exportName = ci_name constInfo;
                    es = (if needsExport constInfo \<and> activeTextEditor h = Some uri
                          then [Edit [(n, (case constPosition constInfo of Some c \<Rightarrow> c | None \<Rightarrow> 0),
                                       ''export '')], Save]
                          else [])
                in case loadSmilesModule h (smilesModuleCache st) (fileName (docs h uri)) of
                     (Inl err, cache', ops) \<Rightarrow> fire st (Some (errorInfo n (message err))) es
                   | (Inr r, cache', ops) \<Rightarrow>
                       (let st' = st\<lparr>smilesModuleCache := cache'\<rparr>;
                            module = lr_module r
                        in if (case lr_error r of Some loadError \<Rightarrow> loadError \<noteq> [] | None \<Rightarrow> False)
                           then fire st'
                                  (Some \<lparr>li_line = n, li_name = JStr exportName,
                                         li_expression = JStr lineText, li_selfies = JUndefined,
                                         li_smiles = JUndefined, li_molecularWeight = JUndefined,
                                         li_formula = JUndefined,
                                         li_error = (case lr_error r of Some loadError \<Rightarrow> JStr loadError
                                                     | None \<Rightarrow> JNull)\<rparr>) es
                           else if \<not> truthy module \<or> \<not> truthy (get_prop module exportName)
                           then fire st' None es
                           else let fragment = get_prop module exportName
                                in if \<not> truthy (get_prop fragment ''smiles'')
                                   then fire st' None es
                                   else fire st'
                                          (Some \<lparr>li_line = n, li_name = JStr exportName,
                                                 li_expression = JStr lineText, li_selfies = JNull,
                                                 li_smiles = get_prop fragment ''smiles'',
                                                 li_molecularWeight = get_prop fragment ''molecularWeight'',
                                                 li_formula = get_prop fragment ''formula'',
                                                 li_error = JNull\<rparr>) es)))"

text \<open>
  Resolving a definition that was found on the line: the resolver in a \<^verbatim>\<open>try\<close>, the
  decoder in a second, the two property lookups together in a third, whose \<^verbatim>\<open>catch\<close>
  is empty. \<open>expressionOf\<close> is the expression string of both object literals.
\<close>

definition expressionOf :: "dsl_definition \<Rightarrow> string" where
  "expressionOf definition =
     (case d_tokens definition of Some ts \<Rightarrow> formatTokens ts | None \<Rightarrow> [])"

definition definitionLineInfo :: "host \<Rightarrow> parse_result \<Rightarrow> nat \<Rightarrow> dsl_definition \<Rightarrow> lineInfo" where
  "definitionLineInfo h pr n definition =
     (let (selfies, error) = (case resolve h pr (d_name definition) of
                                Inr v \<Rightarrow> (v, JNull)
                              | Inl err \<Rightarrow> (JNull, JStr (message err)))
      in if \<not> truthy selfies
         then \<lparr>li_line = n, li_name = JStr (d_name definition),
               li_expression = JStr (expressionOf definition),
               li_selfies = JUndefined, li_smiles = JUndefined, li_molecularWeight = JUndefined,
               li_formula = JUndefined,
               li_error = (if truthy error then error else JStr ''Could not resolve definition'')\<rparr>
         else let (smiles, error) = (case decode h selfies of
                                       Inr v \<Rightarrow> (v, error)
                                     | Inl err \<Rightarrow> (JNull, JStr (message err)));
                  (molecularWeight, formula) =
                    (if truthy selfies \<and> \<not> truthy error
                     then (case getMolecularWeight h selfies of
                             Inl err \<Rightarrow> (JNull, JNull)
                           | Inr w \<Rightarrow>
                               (case getFormula h selfies of
                                  Inl err \<Rightarrow> (w, JNull)
                                | Inr f \<Rightarrow> (w, f)))
                     else (JNull, JNull))
              in \<lparr>li_line = n, li_name = JStr (d_name definition),
                   li_expression = JStr (expressionOf definition),
                   li_selfies = selfies, li_smiles = smiles, li_molecularWeight = molecularWeight,
                   li_formula = formula, li_error = error\<rparr>)"

text \<open>
  The branch for DSL files: parse when there is no parse result, skip an empty line
  and a comment, find the first definition whose line is the cursor line plus one.
  \<open>ensureParsed\<close> is the parse result that the branch works with, or what the parse
  threw; \<open>definitionsOf\<close> is \<^verbatim>\<open>Array.from(definitions.values())\<close>, the empty array
  when the result has no definitions.
\<close>

definition ensureParsed :: "host \<Rightarrow> tracker \<Rightarrow> string \<Rightarrow> js_error + parse_result" where
  "ensureParsed h st uri =
     (case parseResult st of
        Some pr \<Rightarrow> Inr pr
      | None \<Rightarrow> loadWithImports h (getText (docs h uri)) (fsPath (docs h uri)))"

definition definitionsOf :: "parse_result \<Rightarrow> dsl_definition list" where
  "definitionsOf pr = (case pr_definitions pr of Some ds \<Rightarrow> ds | None \<Rightarrow> [])"

definition selfiesLineInfo ::
  "host \<Rightarrow> tracker \<Rightarrow> string \<Rightarrow> nat \<Rightarrow> string \<Rightarrow> reaction" where
  "selfiesLineInfo h st uri n lineText =
     (case ensureParsed h st uri of
        Inl err \<Rightarrow> fire st (Some (errorInfo n (message err))) []
      | Inr pr \<Rightarrow>
          (let st' = st\<lparr>parseResult := Some pr\<rparr>
           in if lineText = [] \<or> js_startsWith lineText ''#''
              then fire st' None []
              else case find (\<lambda>def. d_line def = int n + 1) (definitionsOf pr) of
                     None \<Rightarrow> fire st' None []
                   | Some definition \<Rightarrow>
                       fire st' (Some (definitionLineInfo h pr n definition)) []))"

definition updateLineInfo :: "host \<Rightarrow> tracker \<Rightarrow> reaction" where
  "updateLineInfo h st =
     (case currentDocument st of
        None \<Rightarrow> idle st
      | Some uri \<Rightarrow>
          (case currentLine st of
             None \<Rightarrow> idle st
           | Some n \<Rightarrow>
               (let isSmilesJS = js_endsWith (fileName (docs h uri)) ''.smiles.js''
                in case lineAt (docs h uri) n of
                     Inl err \<Rightarrow> fire st (Some (errorInfo n (message err))) []
                   | Inr raw \<Rightarrow>
                       (let lineText = js_trim raw
                        in if isSmilesJS then smilesJSLineInfo h st uri n lineText
                           else selfiesLineInfo h st uri n lineText))))"

subsection \<open>The listeners\<close>

text \<open>
  A selection event has the editor's document, if there is an editor, and the line of
  the first selection's active position. An editor change has the new active editor,
  if any, as its document and that line.
\<close>

record selection_event =
  se_editor :: "string option"
  se_line :: nat

definition handleSelectionChange :: "host \<Rightarrow> tracker \<Rightarrow> selection_event \<Rightarrow> reaction" where
  "handleSelectionChange h st event =
     (case se_editor event of
        None \<Rightarrow> idle st
      | Some uri \<Rightarrow>
          if \<not> isSupportedFile (docs h uri) then idle st
          else let lineNumber = se_line event
               in if currentLine st \<noteq> Some lineNumber
                  then updateLineInfo h (st\<lparr>currentLine := Some lineNumber\<rparr>)
                  else idle st)"

definition handleDocumentChange :: "host \<Rightarrow> tracker \<Rightarrow> string \<Rightarrow> reaction" where
  "handleDocumentChange h st uri =
     (if \<not> isSupportedFile (docs h uri) then idle st
      else updateLineInfo h (st\<lparr>parseResult := None\<rparr>))"

definition onDidChangeTextDocument :: "host \<Rightarrow> tracker \<Rightarrow> string \<Rightarrow> reaction" where
  "onDidChangeTextDocument h st uri =
     (case currentDocument st of
        Some currentUri \<Rightarrow>
          if currentUri \<noteq> [] \<and> uri = currentUri then handleDocumentChange h st uri else idle st
      | None \<Rightarrow> idle st)"


text \<open>The constructor: the empty state, then the active editor, if it is supported.\<close>

definition emptyTracker :: tracker where
  "emptyTracker =
     \<lparr>currentLine = None, currentDocument = None, parseResult = None,
      smilesModuleCache = Map.empty\<rparr>"

definition newLineTracker :: "host \<Rightarrow> (string \<times> nat) option \<Rightarrow> reaction" where
  "newLineTracker h activeEditor =
     (case activeEditor of
        None \<Rightarrow> idle emptyTracker
      | Some (uri, line) \<Rightarrow>
          if isSupportedFile (docs h uri)
          then handleSelectionChange h (emptyTracker\<lparr>currentDocument := Some uri\<rparr>)
                 \<lparr>se_editor = Some uri, se_line = line\<rparr>
          else idle emptyTracker)"

section \<open>Diagnostics of DSL files\<close>

text \<open>
  \<^verbatim>\<open>src/diagnostics.js\<close>. A position and a range hold the numbers that the code hands
  to the editor's constructors.
\<close>

datatype severity = Error | Warning | Information | Hint

record position =
  p_line :: int
  p_character :: int

record vs_range =
  r_start :: position
  r_end :: position

record diagnostic =
  dg_range :: vs_range
  dg_message :: string
  dg_severity :: severity
  dg_source :: string
  dg_code :: "string option"

text \<open>\<^verbatim>\<open>getSeverity(type)\<close>: the \<^verbatim>\<open>switch\<close>, case by case; \<open>None\<close> is \<^verbatim>\<open>undefined\<close>.\<close>

definition getSeverity :: "string option \<Rightarrow> severity" where
  "getSeverity type =
     (if type = Some ''error'' then Error
      else if type = Some ''syntax'' then Error
      else if type = Some ''undefined'' then Error
      else if type = Some ''circular'' then Error
      else if type = Some ''redefinition'' then Error
      else if type = Some ''warning'' then Warning
      else if type = Some ''chemistry'' then Warning
      else if type = Some ''info'' then Information
      else if type = Some ''hint'' then Hint
      else Error)"

text \<open>
  The table of the specification: the categories of each severity, and \<open>Error\<close> for a
  category in none of the rows.
\<close>

definition severity_table :: "string option \<Rightarrow> severity" where
  "severity_table category =
     (case category of
        None \<Rightarrow> Error
      | Some c \<Rightarrow>
          if c \<in> {''error'', ''syntax'', ''undefined'', ''circular'', ''redefinition''} then Error
          else if c \<in> {''warning'', ''chemistry''} then Warning
          else if c \<in> {''info''} then Information
          else if c \<in> {''hint''} then Hint
          else Error)"

text \<open>\<^verbatim>\<open>error.type || error.severity\<close>: the type unless it is absent or empty.\<close>

definition category :: "issue \<Rightarrow> string option" where
  "category e = (case i_type e of
                   Some t \<Rightarrow> if t \<noteq> [] then Some t else i_severity e
                 | None \<Rightarrow> i_severity e)"

text \<open>The range of an error or a warning: from one-based to zero-based.\<close>

definition issueRange :: "issue \<Rightarrow> vs_range" where
  "issueRange e =
     (let line = (case i_line e of Some l \<Rightarrow> l - 1 | None \<Rightarrow> 0);
          column = (case i_column e of Some c \<Rightarrow> c - 1 | None \<Rightarrow> 0);
          endColumn = (case i_endColumn e of Some c \<Rightarrow> c - 1 | None \<Rightarrow> column + 1)
      in \<lparr>r_start = \<lparr>p_line = line, p_character = column\<rparr>,
          r_end = \<lparr>p_line = line, p_character = endColumn\<rparr>\<rparr>)"

definition errorDiagnostic :: "issue \<Rightarrow> diagnostic" where
  "errorDiagnostic error =
     \<lparr>dg_range = issueRange error, dg_message = i_message error,
      dg_severity = getSeverity (category error), dg_source = ''selfies'',
      dg_code = (case i_code error of Some c \<Rightarrow> if c \<noteq> [] then Some c else None | None \<Rightarrow> None)\<rparr>"

definition warningDiagnostic :: "issue \<Rightarrow> diagnostic" where
  "warningDiagnostic warning =
     \<lparr>dg_range = issueRange warning, dg_message = i_message warning,
      dg_severity = Warning, dg_source = ''selfies'', dg_code = None\<rparr>"

text \<open>
  The diagnostics of a DSL document from what \<^verbatim>\<open>loadWithImports\<close> returned or threw:
  the errors in their order, then the warnings in theirs.
\<close>

definition selfiesDiagnostics :: "js_error + parse_result \<Rightarrow> diagnostic list" where
  "selfiesDiagnostics parsed =
     (case parsed of
        Inr result \<Rightarrow>
          (case pr_errors result of Some es \<Rightarrow> map errorDiagnostic es | None \<Rightarrow> [])
          @ (case pr_warnings result of Some ws \<Rightarrow> map warningDiagnostic ws | None \<Rightarrow> [])
      | Inl err \<Rightarrow>
          [\<lparr>dg_range = \<lparr>r_start = \<lparr>p_line = 0, p_character = 0\<rparr>,
                        r_end = \<lparr>p_line = 0, p_character = 1\<rparr>\<rparr>,
            dg_message = ''Failed to parse SELFIES file: '' @ message err,
            dg_severity = Error, dg_source = ''selfies'', dg_code = None\<rparr>])"

text \<open>
  \<^verbatim>\<open>updateDiagnostics(document)\<close>: the set that is published for the document, or
  \<open>None\<close> when nothing is published. The static checks of a \<^verbatim>\<open>.smiles.js\<close> file are
  not part of what is verified here; their result is the parameter \<open>importErrors\<close>.
\<close>

definition updateDiagnostics :: "host \<Rightarrow> diagnostic list \<Rightarrow> document \<Rightarrow> diagnostic list option" where
  "updateDiagnostics h importErrors document =
     (if \<not> isSupportedFile document then None
      else if js_endsWith (fileName document) ''.smiles.js'' then Some importErrors
      else Some (selfiesDiagnostics (loadWithImports h (getText document) (fsPath document))))"

section \<open>The round-trip checker: extracting literals\<close>

subsection \<open>A match ends in the string, and not before it starts\<close>

lemma rmatch_ge: "(e, c) \<in> set (rmatch r s i caps) \<Longrightarrow> i \<le> e"
proof (induction r arbitrary: i caps e c)
  case (Seq r1 r2)
  from Seq.prems obtain e1 c1 where a: "(e1, c1) \<in> set (rmatch r1 s i caps)"
    and b: "(e, c) \<in> set (rmatch r2 s e1 c1)" by auto
  from Seq.IH(1)[OF a] Seq.IH(2)[OF b] show ?case by simp
qed (auto split: if_splits list.splits simp: Let_def)

lemma prefix_fits: "take (length t) (drop i s) = t \<Longrightarrow> length t \<le> length s - i"
proof -
  assume "take (length t) (drop i s) = t"
  then have "length (take (length t) (drop i s)) = length t" by simp
  then show ?thesis by simp
qed

lemma rmatch_le: "(e, c) \<in> set (rmatch r s i caps) \<Longrightarrow> i \<le> length s \<Longrightarrow> e \<le> length s"
proof (induction r arbitrary: i caps e c)
  case (Lit t)
  then have "take (length t) (drop i s) = t" "e = i + length t" by (auto split: if_splits)
  then have "length t \<le> length s - i" by (simp add: prefix_fits)
  with Lit \<open>e = i + length t\<close> show ?case by simp
next
  case (Cls P)
  then have "drop i s \<noteq> []" "e = Suc i" by (auto split: list.splits if_splits)
  then have "i < length s" by simp
  with \<open>e = Suc i\<close> show ?case by simp
next
  case (Star P)
  then obtain n where "e = i + n" "n \<le> length (takeWhile P (drop i s))" by auto
  moreover have "length (takeWhile P (drop i s)) \<le> length s - i"
    by (metis length_takeWhile_le length_drop)
  ultimately show ?case using Star by simp
next
  case (Plus P)
  then obtain n where "e = i + n" "n \<le> length (takeWhile P (drop i s))" by auto
  moreover have "length (takeWhile P (drop i s)) \<le> length s - i"
    by (metis length_takeWhile_le length_drop)
  ultimately show ?case using Plus by simp
next
  case (LazyStar P)
  then obtain n where "e = i + n" "n \<le> length (takeWhile P (drop i s))" by auto
  moreover have "length (takeWhile P (drop i s)) \<le> length s - i"
    by (metis length_takeWhile_le length_drop)
  ultimately show ?case using LazyStar by simp
next
  case (Group g r)
  then show ?case by auto
next
  case (Backref g)
  define t where "t = (case caps g of Some t \<Rightarrow> t | None \<Rightarrow> [])"
  with Backref have "take (length t) (drop i s) = t" "e = i + length t"
    by (auto split: if_splits simp: Let_def)
  then have "length t \<le> length s - i" by (simp add: prefix_fits)
  with Backref \<open>e = i + length t\<close> show ?case by simp
next
  case Bol
  then show ?case by (auto split: if_splits)
next
  case (Seq r1 r2)
  from Seq.prems obtain e1 c1 where a: "(e1, c1) \<in> set (rmatch r1 s i caps)"
    and b: "(e, c) \<in> set (rmatch r2 s e1 c1)" by auto
  from Seq.IH(1)[OF a Seq.prems(2)] Seq.IH(2)[OF b] show ?case by simp
qed

lemma first_match_Some:
  "first_match r s is = Some m \<Longrightarrow> m_index m \<in> set is \<and> match_at r s (m_index m) = Some m"
proof (induction "is")
  case Nil
  then show ?case by simp
next
  case (Cons i "is")
  show ?case
  proof (cases "match_at r s i")
    case None
    with Cons show ?thesis by simp
  next
    case (Some m')
    with Cons.prems have "m' = m" by simp
    moreover from Some have "m_index m' = i" by (auto simp: match_at_def split: list.splits)
    ultimately show ?thesis using Some by simp
  qed
qed

lemma match_at_Some:
  "match_at r s i = Some m \<Longrightarrow> (m_end m, m_groups m) \<in> set (rmatch r s i (\<lambda>_. None))"
  by (auto simp: match_at_def split: list.splits)

lemma exec_from_Some:
  assumes "exec_from r s i = Some m"
  shows "i \<le> m_index m \<and> m_index m \<le> length s
     \<and> (m_end m, m_groups m) \<in> set (rmatch r s (m_index m) (\<lambda>_. None))
     \<and> m_index m \<le> m_end m \<and> m_end m \<le> length s"
proof -
  from assms have a: "m_index m \<in> set [i ..< Suc (length s)]"
    and b: "match_at r s (m_index m) = Some m"
    using first_match_Some unfolding exec_from_def by blast+
  from a have c: "i \<le> m_index m" "m_index m \<le> length s" by auto
  from match_at_Some[OF b] have d: "(m_end m, m_groups m) \<in> set (rmatch r s (m_index m) (\<lambda>_. None))" .
  from rmatch_ge[OF d] rmatch_le[OF d c(2)] c d show ?thesis by simp
qed

lemma rmatch_Seq_elim:
  "(e, c) \<in> set (rmatch (Seq r1 r2) s i caps) \<Longrightarrow>
     \<exists>e1 c1. (e1, c1) \<in> set (rmatch r1 s i caps) \<and> (e, c) \<in> set (rmatch r2 s e1 c1)"
  by auto



lemma rmatch_Lit_end: "(e, c) \<in> set (rmatch (Lit t) s i caps) \<Longrightarrow> e = i + length t"
  by (auto split: if_splits)


lemma rmatch_Lit_first:
  assumes "(e, c) \<in> set (rmatch (Seq (Lit t) r) s i caps)"
  shows "i + length t \<le> e"
proof -
  from rmatch_Seq_elim[OF assms] obtain e1 c1
    where a: "(e1, c1) \<in> set (rmatch (Lit t) s i caps)"
      and b: "(e, c) \<in> set (rmatch r s e1 c1)" by blast
  from a have "e1 = i + length t" by (rule rmatch_Lit_end)
  with rmatch_ge[OF b] show ?thesis by simp
qed

subsection \<open>The extraction\<close>

text \<open>
  \<^verbatim>\<open>looksLikeSMILES\<close> and \<^verbatim>\<open>extractSMILESFromLine\<close> of the round-trip diagnostics.
  Each \<^verbatim>\<open>while\<close> loop over \<^verbatim>\<open>pattern.exec(line)\<close> is a function of
  \<^verbatim>\<open>lastIndex\<close>; it terminates because each match of the two patterns ends after
  the position at which the search began.
\<close>

definition quote_chars :: string where
  "quote_chars = [CHR 0x27, CHR 0x22]"















section \<open>The refactor command\<close>

text \<open>
  The refactor command of the extension. \<^verbatim>\<open>findExportAtLine\<close> has the same body as
  \<^verbatim>\<open>_findConstAtLine\<close> of the line tracker.
\<close>

definition findExportAtLine :: "string \<Rightarrow> nat \<Rightarrow> const_info option" where
  "findExportAtLine text lineNumber =
     (let lines = split_lines text
      in if length lines \<le> lineNumber then None
         else let line = lines ! lineNumber
              in if line = [] then None
                 else case js_match line exportConstPattern of
                        Some exportMatch \<Rightarrow>
                          Some \<lparr>ci_name = group exportMatch 1, needsExport = False,
                                constPosition = None\<rparr>
                      | None \<Rightarrow>
                          (case js_match line bareConstPattern of
                             Some constMatch \<Rightarrow>
                               Some \<lparr>ci_name = group constMatch 2, needsExport = True,
                                     constPosition = Some (length (group constMatch 1))\<rparr>
                           | None \<Rightarrow> None))"

definition extractUsedConstructors :: "string \<Rightarrow> string list" where
  "extractUsedConstructors code =
     filter (\<lambda>c. js_includes code (c @ ''(''))
       [''Ring'', ''Linear'', ''FusedRing'', ''Molecule'']"

text \<open>
  The loop of \<^verbatim>\<open>findImportInsertPosition\<close> from line \<open>i\<close> on, with the last import
  line seen so far (\<open>-1\<close> for none); the \<^verbatim>\<open>break\<close> returns at once.
\<close>

fun lastImportLine :: "string list \<Rightarrow> nat \<Rightarrow> int \<Rightarrow> int" where
  "lastImportLine [] i seen = seen"
| "lastImportLine (l # ls) i seen =
     (let line = js_trim l
      in if js_startsWith line ''import '' then lastImportLine ls (Suc i) (int i)
         else if line \<noteq> [] \<and> \<not> js_startsWith line ''//'' \<and> \<not> js_startsWith line ''/*''
                 \<and> 0 \<le> seen
         then seen
         else lastImportLine ls (Suc i) seen)"

definition findImportInsertPosition :: "string \<Rightarrow> nat" where
  "findImportInsertPosition text = nat (lastImportLine (split_lines text) 0 (- 1) + 1)"

text \<open>\<^verbatim>\<open>/import\s*\{([^}]+)\}\s*from\s*['"]smiles-js['"]/g\<close>.\<close>

definition importRegex :: regex where
  "importRegex =
     seqs [Lit ''import'', Star is_space, Lit ''{'', Group 1 (Plus (\<lambda>c. c \<noteq> CHR ''}'')),
           Lit ''}'', Star is_space, Lit ''from'', Star is_space, Cls (one_of quote_chars),
           Lit ''smiles-js'', Cls (one_of quote_chars)]"

lemma importRegex_progress:
  "exec_from importRegex text i = Some m \<Longrightarrow> i < m_end m \<and> m_end m \<le> length text"
proof -
  assume a: "exec_from importRegex text i = Some m"
  from exec_from_Some[OF a] have "i \<le> m_index m" "m_end m \<le> length text"
    and b: "(m_end m, m_groups m) \<in> set (rmatch importRegex text (m_index m) (\<lambda>_. None))"
    by simp_all
  moreover from b have "m_index m + length ''import'' \<le> m_end m"
    unfolding importRegex_def seqs.simps by (rule rmatch_Lit_first)
  ultimately show ?thesis by simp
qed

function existingImportsFrom :: "string \<Rightarrow> nat \<Rightarrow> string list" where
  "existingImportsFrom text lastIndex =
     (case exec_from importRegex text lastIndex of
        None \<Rightarrow> []
      | Some match \<Rightarrow>
          map js_trim (js_split CHR '','' (group match 1))
          @ existingImportsFrom text (m_end match))"
  by pat_completeness auto
termination
  by (relation "measure (\<lambda>(text, lastIndex). Suc (length text) - lastIndex)")
    (auto dest!: importRegex_progress)

declare existingImportsFrom.simps [simp del]

text \<open>The names that are imported already, as the list of what was added to the set.\<close>

definition getExistingImports :: "string \<Rightarrow> string list" where
  "getExistingImports text = existingImportsFrom text 0"

definition generateImportStatement :: "string list \<Rightarrow> string list \<Rightarrow> string option" where
  "generateImportStatement needed existing =
     (let missing = filter (\<lambda>c. c \<notin> set existing) needed
      in if missing = [] then None
         else Some (''import { '' @ js_join '', '' missing @ '' } from '' @ [CHR 0x27]
                    @ ''smiles-js'' @ [CHR 0x27] @ '';'' @ [LF]))"

text \<open>
  \<^verbatim>\<open>loadModule\<close> returns \<^verbatim>\<open>null\<close> when the import throws.
\<close>

definition loadModule :: "'a loader_host_scheme \<Rightarrow> string \<Rightarrow> jsval" where
  "loadModule h filePath = (case dynamicImport h filePath of Inr m \<Rightarrow> m | Inl err \<Rightarrow> JNull)"

text \<open>
  The text of a document after \<open>s\<close> was inserted at a line and a column of it; this
  is what \<^verbatim>\<open>document.getText()\<close> returns after the export marker was added.
\<close>

definition insert_text :: "string \<Rightarrow> nat \<Rightarrow> nat \<Rightarrow> string \<Rightarrow> string" where
  "insert_text text l c s =
     (let lines = split_lines text
      in if length lines \<le> l then text
         else js_join [LF] (lines[l := take c (lines ! l) @ s @ drop c (lines ! l)]))"

text \<open>
  The active editor as the command reads it, and what the command shows and does.
\<close>

record editor_view =
  ev_fileName :: string
  ev_text :: string
  ev_line :: nat

datatype notice = ErrorMessage string | InformationMessage string

record refactor_result =
  rr_notices :: "notice list"
  rr_edits :: "doc_edit list"

definition dq :: string where
  "dq = [CHR 0x22]"

text \<open>
  The step that adds the export marker: the text that the command works with
  afterwards, and the edits. Without a missing marker the document is only saved.
\<close>

definition addExport :: "string \<Rightarrow> nat \<Rightarrow> const_info \<Rightarrow> string \<times> doc_edit list" where
  "addExport text lineNumber exportInfo =
     (let col = (case constPosition exportInfo of Some c \<Rightarrow> c | None \<Rightarrow> 0)
      in if needsExport exportInfo
         then (insert_text text lineNumber col ''export '',
               [Edit [(lineNumber, col, ''export '')], Save])
         else (text, [Save]))"

text \<open>
  The last edit: the import statement, if one is needed, at the start of the line after
  the imports, and the generated code at the start of the line after the declaration.
\<close>

definition spliceEdit :: "string \<Rightarrow> nat \<Rightarrow> string \<Rightarrow> string \<Rightarrow> doc_edit" where
  "spliceEdit text lineNumber exportName code =
     (let usedConstructors = extractUsedConstructors code;
          existingImports = getExistingImports text;
          importStatement = generateImportStatement usedConstructors existingImports;
          codeToInsert = [LF] @ ''// Refactored from '' @ exportName @ '':'' @ [LF] @ code @ [LF]
      in Edit ((case importStatement of
                  Some st \<Rightarrow> [(findImportInsertPosition text, 0, st)]
                | None \<Rightarrow> [])
               @ [(lineNumber + 1, 0, codeToInsert)]))"

definition refactorMolecule :: "'a loader_host_scheme \<Rightarrow> editor_view option \<Rightarrow> refactor_result" where
  "refactorMolecule h editor =
     (case editor of
        None \<Rightarrow> \<lparr>rr_notices = [ErrorMessage ''No active editor''], rr_edits = []\<rparr>
      | Some ed \<Rightarrow>
          if \<not> js_endsWith (ev_fileName ed) ''.smiles.js''
          then \<lparr>rr_notices = [ErrorMessage ''This command only works in .smiles.js files''],
                rr_edits = []\<rparr>
          else
            (let lineNumber = ev_line ed
             in case findExportAtLine (ev_text ed) lineNumber of
                  None \<Rightarrow>
                    \<lparr>rr_notices = [ErrorMessage ''No const declaration found on the current line''],
                     rr_edits = []\<rparr>
                | Some exportInfo \<Rightarrow>
                    (let exportName = ci_name exportInfo;
                         (text, es) = addExport (ev_text ed) lineNumber exportInfo;
                         module = loadModule h (ev_fileName ed)
                     in if \<not> truthy module \<or> \<not> truthy (get_prop module exportName)
                        then \<lparr>rr_notices =
                                [ErrorMessage (''Could not load export '' @ dq @ exportName @ dq)],
                              rr_edits = es\<rparr>
                        else
                          (case get_prop (get_prop module exportName) ''toCode'' of
                             JFun toCode \<Rightarrow>
                               (case toCode exportName of
                                  Inl err \<Rightarrow>
                                    \<lparr>rr_notices =
                                       [ErrorMessage (''Failed to generate code: '' @ message err)],
                                     rr_edits = es\<rparr>
                                | Inr code \<Rightarrow>
                                    \<lparr>rr_notices =
                                       [InformationMessage
                                          (''Refactored '' @ dq @ exportName @ dq
                                           @ '' to constructor code'')],
                                     rr_edits = es @ [spliceEdit text lineNumber exportName code]\<rparr>)
                           | _ \<Rightarrow>
                               \<lparr>rr_notices =
                                  [ErrorMessage (''Export '' @ dq @ exportName @ dq
                                                 @ '' does not have a toCode() method'')],
                                rr_edits = es\<rparr>))))"

section \<open>Examples and auxiliary notions\<close>

subsection \<open>The reported issues, and a document for examples\<close>

text \<open>The errors and the warnings of a parse result, in the order of their diagnostics.\<close>

definition reported_errors :: "parse_result \<Rightarrow> issue list" where
  "reported_errors result = (case pr_errors result of Some es \<Rightarrow> es | None \<Rightarrow> [])"

definition reported_warnings :: "parse_result \<Rightarrow> issue list" where
  "reported_warnings result = (case pr_warnings result of Some ws \<Rightarrow> ws | None \<Rightarrow> [])"

text \<open>A DSL document and a host whose parse reports one error and one warning.\<close>

definition dsl_document :: document where
  "dsl_document =
     \<lparr>fileName = ''m.selfies'', languageId = ''selfies'', fsPath = ''m.selfies'',
      getText = ''[a] = [C]'', lineAt = (\<lambda>n. Inr ''[a] = [C]'')\<rparr>"

definition duplicate_error :: issue where
  "duplicate_error =
     \<lparr>i_line = Some 3, i_column = Some 1, i_endColumn = None, i_type = Some ''redefinition'',
      i_severity = None, i_message = ''Duplicate definition'', i_code = None\<rparr>"

definition info_warning :: issue where
  "info_warning =
     \<lparr>i_line = Some 2, i_column = Some 5, i_endColumn = Some 9, i_type = Some ''info'',
      i_severity = None, i_message = ''note'', i_code = None\<rparr>"

definition reporting_result :: parse_result where
  "reporting_result =
     \<lparr>pr_definitions = None, pr_errors = Some [duplicate_error],
      pr_warnings = Some [info_warning]\<rparr>"

definition reporting_host :: host where
  "reporting_host =
     \<lparr>statSync = (\<lambda>_. Inr 7), requirePurge = (\<lambda>_. None), dynamicImport = (\<lambda>_. Inr (JObj [])),
      docs = (\<lambda>_. dsl_document), activeTextEditor = None,
      loadWithImports = (\<lambda>_ _. Inr reporting_result),
      resolve = (\<lambda>_ _. Inr (JStr ''[C]'')), decode = (\<lambda>_. Inr (JStr ''C'')),
      getMolecularWeight = (\<lambda>_. Inr (JNum 16)), getFormula = (\<lambda>_. Inr (JStr ''CH4''))\<rparr>"

subsection \<open>Trackers, documents and hosts for examples\<close>

definition attached :: tracker where
  "attached = emptyTracker\<lparr>currentDocument := Some ''m.selfies'', currentLine := Some 0\<rparr>"

definition carbon_definition :: dsl_definition where
  "carbon_definition = \<lparr>d_name = ''a'', d_line = 1, d_tokens = Some [TString ''[C]'']\<rparr>"

definition carbon_result :: parse_result where
  "carbon_result =
     \<lparr>pr_definitions = Some [carbon_definition], pr_errors = None, pr_warnings = None\<rparr>"

definition weightless_host :: host where
  "weightless_host =
     reporting_host\<lparr>loadWithImports := (\<lambda>_ _. Inr carbon_result),
                    getMolecularWeight := (\<lambda>_. Inl \<lparr>message = ''no weight'', stack = None\<rparr>)\<rparr>"

definition comment_document :: document where
  "comment_document = dsl_document\<lparr>getText := ''# note'', lineAt := (\<lambda>n. Inr ''# note'')\<rparr>"

definition comment_host :: host where
  "comment_host = weightless_host\<lparr>docs := (\<lambda>_. comment_document)\<rparr>"

definition sq :: string where
  "sq = [CHR 0x27]"

definition water_line :: string where
  "water_line = ''export const water = Fragment('' @ sq @ ''O'' @ sq @ '')''"

definition water_document :: document where
  "water_document =
     \<lparr>fileName = ''w.smiles.js'', languageId = ''javascript'', fsPath = ''w.smiles.js'',
      getText = water_line, lineAt = (\<lambda>n. Inr water_line)\<rparr>"

text \<open>A module whose export \<open>water\<close> has the empty string as its notation.\<close>

definition empty_notation_module :: jsval where
  "empty_notation_module = JObj [(''water'', JObj [(''smiles'', JStr [])])]"

definition water_host :: host where
  "water_host =
     reporting_host\<lparr>docs := (\<lambda>_. water_document),
                    dynamicImport := (\<lambda>_. Inr empty_notation_module)\<rparr>"

definition water_tracker :: tracker where
  "water_tracker = emptyTracker\<lparr>currentDocument := Some ''w.smiles.js'', currentLine := Some 0\<rparr>"

subsection \<open>Failures of the refactor command, and editors for examples\<close>

definition bare_water_line :: string where
  "bare_water_line = ''const water = Fragment('' @ sq @ ''O'' @ sq @ '')''"

definition bare_water_editor :: editor_view where
  "bare_water_editor = \<lparr>ev_fileName = ''w.smiles.js'', ev_text = bare_water_line, ev_line = 0\<rparr>"

text \<open>
  The ways in which an invocation fails, as conditions on what the command finds. The
  load or the lookup fails when \<^verbatim>\<open>loadModule\<close> gives no module or the module has no
  export of the declared name; the export lacks the capability to generate code when
  its \<^verbatim>\<open>toCode\<close> is not a function; the generation throws when the call of
  \<^verbatim>\<open>toCode\<close> does. An invocation fails when there is no active editor, the file is
  not a build-format file, there is no declaration on the line, or one of the three
  holds of the declaration found. The text of the document is changed by an edit that
  inserts something.
\<close>

definition loadOrLookupFails :: "'a loader_host_scheme \<Rightarrow> editor_view \<Rightarrow> const_info \<Rightarrow> bool" where
  "loadOrLookupFails h ed info =
     (\<not> truthy (loadModule h (ev_fileName ed))
      \<or> \<not> truthy (get_prop (loadModule h (ev_fileName ed)) (ci_name info)))"

definition generator :: "'a loader_host_scheme \<Rightarrow> editor_view \<Rightarrow> const_info \<Rightarrow> jsval" where
  "generator h ed info =
     get_prop (get_prop (loadModule h (ev_fileName ed)) (ci_name info)) ''toCode''"

definition lacksCodeGeneration :: "'a loader_host_scheme \<Rightarrow> editor_view \<Rightarrow> const_info \<Rightarrow> bool" where
  "lacksCodeGeneration h ed info =
     (case generator h ed info of JFun toCode \<Rightarrow> False | _ \<Rightarrow> True)"

definition generationThrows :: "'a loader_host_scheme \<Rightarrow> editor_view \<Rightarrow> const_info \<Rightarrow> bool" where
  "generationThrows h ed info =
     (case generator h ed info of
        JFun toCode \<Rightarrow> (case toCode (ci_name info) of Inl err \<Rightarrow> True | Inr code \<Rightarrow> False)
      | _ \<Rightarrow> False)"

definition refactor_fails :: "'a loader_host_scheme \<Rightarrow> editor_view option \<Rightarrow> bool" where
  "refactor_fails h editor =
     (case editor of
        None \<Rightarrow> True
      | Some ed \<Rightarrow>
          \<not> js_endsWith (ev_fileName ed) ''.smiles.js''
          \<or> (case findExportAtLine (ev_text ed) (ev_line ed) of
                None \<Rightarrow> True
              | Some info \<Rightarrow>
                  loadOrLookupFails h ed info \<or> lacksCodeGeneration h ed info
                  \<or> generationThrows h ed info))"

fun inserts :: "doc_edit \<Rightarrow> (nat \<times> nat \<times> string) list" where
  "inserts (Edit is) = is"
| "inserts Save = []"

definition modifies_text :: "doc_edit list \<Rightarrow> bool" where
  "modifies_text es = (concat (map inserts es) \<noteq> [])"

definition exported_water_editor :: editor_view where
  "exported_water_editor = \<lparr>ev_fileName = ''w.smiles.js'', ev_text = water_line, ev_line = 0\<rparr>"

text \<open>
  A host whose module exports \<^verbatim>\<open>water\<close> with a \<^verbatim>\<open>toCode\<close> that throws, and one
  whose \<^verbatim>\<open>water\<close> has a \<^verbatim>\<open>toCode\<close> that is not a function.
\<close>

definition throwing_module :: jsval where
  "throwing_module =
     JObj [(''water'',
            JObj [(''smiles'', JStr ''O''),
                  (''toCode'', JFun (\<lambda>_. Inl \<lparr>message = ''no atoms'', stack = None\<rparr>))])]"

definition throwing_generator :: loader_host where
  "throwing_generator = \<lparr>statSync = (\<lambda>_. Inr 7), requirePurge = (\<lambda>_. None),
     dynamicImport = (\<lambda>_. Inr throwing_module)\<rparr>"

definition plain_module :: jsval where
  "plain_module = JObj [(''water'', JObj [(''smiles'', JStr ''O''), (''toCode'', JStr ''O'')])]"

definition plain_exports :: loader_host where
  "plain_exports = \<lparr>statSync = (\<lambda>_. Inr 7), requirePurge = (\<lambda>_. None),
     dynamicImport = (\<lambda>_. Inr plain_module)\<rparr>"

subsection \<open>Occurrences in a string, and a line for examples\<close>




section \<open>Verified properties\<close>

subsection \<open>Decimal digits and cache keys\<close>

lemma digit_char_is_digit: "d < 10 \<Longrightarrow> is_digit (digit_char d)"
proof -
  assume "d < 10"
  then have "d \<in> {0,1,2,3,4,5,6,7,8,9}" by auto
  then show ?thesis by (auto simp: is_digit_def digit_char_def)
qed

lemma digit_char_inj: "a < 10 \<Longrightarrow> b < 10 \<Longrightarrow> digit_char a = digit_char b \<Longrightarrow> a = b"
proof -
  assume "a < 10" "b < 10" and e: "digit_char a = digit_char b"
  then have "a \<in> {0,1,2,3,4,5,6,7,8,9}" "b \<in> {0,1,2,3,4,5,6,7,8,9}" by auto
  with e show ?thesis by (auto simp: digit_char_def)
qed

lemma show_nat_digits: "\<forall>c \<in> set (show_nat n). is_digit c"
proof (induction n rule: show_nat.induct)
  case (1 n)
  show ?case
  proof (cases "n < 10")
    case True
    then show ?thesis by (subst show_nat.simps) (simp add: digit_char_is_digit)
  next
    case False
    with 1 show ?thesis by (subst show_nat.simps) (simp add: digit_char_is_digit)
  qed
qed

lemma show_nat_nonempty: "show_nat n \<noteq> []"
  by (subst show_nat.simps) simp

lemma show_nat_inj: "show_nat a = show_nat b \<Longrightarrow> a = b"
proof (induction a arbitrary: b rule: show_nat.induct)
  case (1 n)
  show ?case
  proof (cases "n < 10")
    case True
    show ?thesis
    proof (cases "b < 10")
      case bT: True
      from 1(2) True bT show ?thesis
        by (simp add: show_nat.simps[of n] show_nat.simps[of b] digit_char_inj)
    next
      case bF: False
      from 1(2) True bF show ?thesis
        using show_nat_nonempty[of "b div 10"]
        by (simp add: show_nat.simps[of n] show_nat.simps[of b])
    qed
  next
    case False
    show ?thesis
    proof (cases "b < 10")
      case bT: True
      from 1(2) False bT show ?thesis
        using show_nat_nonempty[of "n div 10"]
        by (simp add: show_nat.simps[of n] show_nat.simps[of b])
    next
      case bF: False
      from 1(2) False bF have e1: "show_nat (n div 10) = show_nat (b div 10)"
        and e2: "digit_char (n mod 10) = digit_char (b mod 10)"
        by (simp_all add: show_nat.simps[of n] show_nat.simps[of b])
      from 1(1)[OF False e1] have "n div 10 = b div 10" .
      moreover from e2 have "n mod 10 = b mod 10" by (simp add: digit_char_inj)
      ultimately show ?thesis by (metis div_mult_mod_eq)
    qed
  qed
qed

lemma takeWhile_until: "\<forall>x\<in>set xs. P x \<Longrightarrow> \<not> P y \<Longrightarrow> takeWhile P (xs @ y # ys) = xs"
  by (induction xs) auto

lemma split_at_last_colon:
  assumes "p @ CHR '':'' # s = q @ CHR '':'' # t" "CHR '':'' \<notin> set s" "CHR '':'' \<notin> set t"
  shows "p = q \<and> s = t"
proof -
  have "rev s @ CHR '':'' # rev p = rev t @ CHR '':'' # rev q"
    using arg_cong[OF assms(1), of rev] by simp
  moreover have "takeWhile (\<lambda>c. c \<noteq> CHR '':'') (rev s @ CHR '':'' # rev p) = rev s"
    using assms(2) by (intro takeWhile_until) auto
  moreover have "takeWhile (\<lambda>c. c \<noteq> CHR '':'') (rev t @ CHR '':'' # rev q) = rev t"
    using assms(3) by (intro takeWhile_until) auto
  ultimately have "rev s = rev t" by simp
  then have "s = t" by simp
  with assms(1) show ?thesis by simp
qed

lemma colon_not_digit: "\<not> is_digit CHR '':''"
  by (simp add: is_digit_def)

lemma cacheKey_inj: "cacheKey p a = cacheKey q b \<Longrightarrow> p = q \<and> a = b"
proof -
  assume e: "cacheKey p a = cacheKey q b"
  have "CHR '':'' \<notin> set (show_nat a)" "CHR '':'' \<notin> set (show_nat b)"
    using show_nat_digits colon_not_digit by blast+
  with e have "p = q \<and> show_nat a = show_nat b"
    using split_at_last_colon[of p "show_nat a" q "show_nat b"] by (simp add: cacheKey_def)
  then show ?thesis by (simp add: show_nat_inj)
qed

subsection \<open>The module cache\<close>

lemma cache_after_snoc: "cache_after (calls @ [c]) = load_step (cache_after calls) c"
  by (simp add: cache_after_def)

lemma stored_by_snoc: "stored_by calls p t m \<Longrightarrow> stored_by (calls @ [c]) p t m"
proof -
  assume "stored_by calls p t m"
  then obtain pre h post where c: "calls = pre @ (h, p) # post" "statSync h p = Inr t"
    "cache_after pre (cacheKey p t) = None" "requirePurge h p = None" "dynamicImport h p = Inr m"
    unfolding stored_by_def by blast
  from c(1) have "calls @ [c] = pre @ (h, p) # (post @ [c])" by simp
  with c(2-5) show ?thesis unfolding stored_by_def by blast
qed

lemma cache_inv_empty: "cache_inv calls Map.empty"
  by (simp add: cache_inv_def)

lemma cache_inv_snoc: "cache_inv calls c \<Longrightarrow> cache_inv (calls @ [x]) c"
  unfolding cache_inv_def by (meson stored_by_snoc)

lemma cache_inv_single:
  "stored_by calls p t m \<Longrightarrow> cache_inv calls [cacheKey p t \<mapsto> m]"
  unfolding cache_inv_def by (auto split: if_splits)

lemma stored_by_last:
  assumes "statSync h p = Inr t" "cache_after calls (cacheKey p t) = None"
    "requirePurge h p = None" "dynamicImport h p = Inr m"
  shows "stored_by (calls @ [(h, p)]) p t m"
  unfolding stored_by_def using assms by blast

lemma load_keeps_inv:
  assumes "cache_inv calls (cache_after calls)"
    and "loadSmilesModule h (cache_after calls) p = (res, cache', ops)"
  shows "cache_inv (calls @ [(h, p)]) cache'"
proof (cases "statSync h p")
  case (Inl err)
  with assms(2) have "cache' = cache_after calls" by (simp add: loadSmilesModule_def Let_def)
  with assms(1) show ?thesis by (simp add: cache_inv_snoc)
next
  case (Inr t)
  show ?thesis
  proof (cases "cache_after calls (cacheKey p t)")
    case (Some m)
    with Inr assms(2) have "cache' = cache_after calls" by (simp add: loadSmilesModule_def Let_def)
    with assms(1) show ?thesis by (simp add: cache_inv_snoc)
  next
    case None
    show ?thesis
    proof (cases "requirePurge h p")
      case (Some err)
      with Inr None assms(2) have "cache' = Map.empty"
        by (simp add: loadSmilesModule_def loadFresh_def Let_def)
      then show ?thesis by (simp add: cache_inv_empty)
    next
      case noPurge: None
      show ?thesis
      proof (cases "dynamicImport h p")
        case (Inl err)
        with Inr None noPurge assms(2) have "cache' = Map.empty"
          by (simp add: loadSmilesModule_def loadFresh_def Let_def)
        then show ?thesis by (simp add: cache_inv_empty)
      next
        case imp: (Inr m)
        with Inr None noPurge assms(2) have "cache' = [cacheKey p t \<mapsto> m]"
          by (simp add: loadSmilesModule_def loadFresh_def Let_def)
        moreover have "stored_by (calls @ [(h, p)]) p t m"
          using Inr None noPurge imp by (rule stored_by_last)
        ultimately show ?thesis by (simp add: cache_inv_single)
      qed
    qed
  qed
qed

lemma cache_after_inv: "cache_inv calls (cache_after calls)"
proof (induction calls rule: rev_induct)
  case Nil
  show ?case by (simp add: cache_after_def cache_inv_empty)
next
  case (snoc c calls)
  obtain h p where c: "c = (h, p)" by (cases c)
  obtain res cache' ops where l: "loadSmilesModule h (cache_after calls) p = (res, cache', ops)"
    by (cases "loadSmilesModule h (cache_after calls) p")
  from snoc l have "cache_inv (calls @ [(h, p)]) cache'" by (rule load_keeps_inv)
  moreover from l have "cache_after (calls @ [c]) = cache'"
    by (simp add: cache_after_snoc load_step_def c)
  ultimately show ?case by (simp add: c)
qed

lemma load_returns_stored:
  assumes "loadSmilesModule h (cache_after calls) p = (Inr r, cache', ops)"
    and "lr_error r = None" and "statSync h p = Inr t"
  shows "stored_by (calls @ [(h, p)]) p t (lr_module r)"
proof (cases "cache_after calls (cacheKey p t)")
  case (Some m)
  with assms have r: "lr_module r = m" by (auto simp: loadSmilesModule_def Let_def)
  from cache_after_inv[of calls] Some obtain q u
    where k: "cacheKey p t = cacheKey q u" and cap: "stored_by calls q u m"
    unfolding cache_inv_def by blast
  from k have "q = p" "u = t" using cacheKey_inj by blast+
  with cap r show ?thesis by (simp add: stored_by_snoc)
next
  case None
  with assms have np: "requirePurge h p = None"
    by (auto simp: loadSmilesModule_def loadFresh_def Let_def split: option.splits)
  with None assms obtain m where m: "dynamicImport h p = Inr m" "lr_module r = m"
    by (auto simp: loadSmilesModule_def loadFresh_def Let_def split: sum.splits)
  with np None assms(3) show ?thesis by (simp add: stored_by_last)
qed

text \<open>
  Two properties of the cache hold whatever the host answers. After every load, whether a
  hit, a miss that succeeded, a miss that failed or a load whose \<^verbatim>\<open>statSync\<close> threw,
  the cache has at most one entry. And a load never returns an entry that was stored
  under another modification time: what it returns was answered by the import of a load
  of the same file that had read the modification time which the file has now.
\<close>

lemma cache_single_and_keyed:
  assumes "loadSmilesModule h (cache_after calls) p = (res, cache', ops)"
  shows "finite (dom cache') \<and> card (dom cache') \<le> 1
    \<and> (\<forall>r t. res = Inr r \<and> lr_error r = None \<and> statSync h p = Inr t
          \<longrightarrow> stored_by (calls @ [(h, p)]) p t (lr_module r))"
proof -
  have "cache_inv (calls @ [(h, p)]) cache'"
    using cache_after_inv assms by (rule load_keeps_inv)
  then have "finite (dom cache')" "card (dom cache') \<le> 1" by (simp_all add: cache_inv_def)
  moreover have "\<forall>r t. res = Inr r \<and> lr_error r = None \<and> statSync h p = Inr t
          \<longrightarrow> stored_by (calls @ [(h, p)]) p t (lr_module r)"
    using assms load_returns_stored by blast
  ultimately show ?thesis by blast
qed

lemma demo_first_load:
  "cache_after [(demo_loader, ''a.smiles.js'')] = [''a.smiles.js:7'' \<mapsto> JObj []]"
  by (simp add: cache_after_def load_step_def loadSmilesModule_def loadFresh_def demo_loader_def
      cacheKey_def show_nat.simps digit_char_def Let_def)

lemma cache_single_and_keyed_example:
  "loadSmilesModule demo_loader (cache_after [(demo_loader, ''a.smiles.js'')]) ''a.smiles.js''
     = (Inr \<lparr>lr_module = JObj [], lr_error = None\<rparr>, [''a.smiles.js:7'' \<mapsto> JObj []],
        [StatSync ''a.smiles.js'', CacheHas ''a.smiles.js:7'', CacheGet ''a.smiles.js:7''])
   \<and> card (dom [''a.smiles.js:7'' \<mapsto> JObj []]) \<le> 1
   \<and> stored_by [(demo_loader, ''a.smiles.js''), (demo_loader, ''a.smiles.js'')]
        ''a.smiles.js'' 7 (JObj [])"
proof -
  have l: "loadSmilesModule demo_loader (cache_after [(demo_loader, ''a.smiles.js'')]) ''a.smiles.js''
     = (Inr \<lparr>lr_module = JObj [], lr_error = None\<rparr>, [''a.smiles.js:7'' \<mapsto> JObj []],
        [StatSync ''a.smiles.js'', CacheHas ''a.smiles.js:7'', CacheGet ''a.smiles.js:7''])"
    by (simp add: demo_first_load)
      (simp add: loadSmilesModule_def demo_loader_def cacheKey_def show_nat.simps digit_char_def Let_def)
  have s: "statSync demo_loader ''a.smiles.js'' = Inr 7" by (simp add: demo_loader_def)
  from cache_single_and_keyed[OF l] s l show ?thesis by simp
qed

subsection \<open>The module cache on the module host\<close>

text \<open>
  On the platform, a load that misses the cache and whose specifier is new to the
  module map returns what the present text of the file evaluates to: the exports are
  captured at the present modification time. A load that
  misses the cache and whose specifier is in the module map already returns the
  namespace of the module map, whatever the file holds now.
\<close>

lemma hostOf_fields:
  "statSync (hostOf w) p
     = (case files w p of Some (mtimeMs, exports) \<Rightarrow> Inr mtimeMs | None \<Rightarrow> Inl noSuchFile)"
  "requirePurge (hostOf w) p = (case files w p of Some f \<Rightarrow> None | None \<Rightarrow> Some noSuchFile)"
  "dynamicImport (hostOf w) p = hostImport w p"
  by (simp_all add: hostOf_def)

lemma load_new_specifier_fresh:
  assumes "files w p = Some (t, Inr m)" and "cache (cacheKey p t) = None"
    and "moduleMap w (importSpecifier p (now w)) = None"
  shows "loadOn w cache p
     = (Inr \<lparr>lr_module = m, lr_error = None\<rparr>, [cacheKey p t \<mapsto> m],
        w\<lparr>moduleMap := (moduleMap w)(importSpecifier p (now w) \<mapsto> m)\<rparr>)
   \<and> captured_now w p m"
  using assms
  by (simp add: loadOn_def loadSmilesModule_def loadFresh_def hostOf_fields hostImport_def Let_def
      captured_now_def)

lemma load_known_specifier_stale:
  assumes "files w p = Some (t, exports)" and "cache (cacheKey p t) = None"
    and "moduleMap w (importSpecifier p (now w)) = Some m"
  shows "fst (loadOn w cache p) = Inr \<lparr>lr_module = m, lr_error = None\<rparr>
     \<and> fst (snd (loadOn w cache p)) = [cacheKey p t \<mapsto> m]"
  using assms
  by (simp add: loadOn_def loadSmilesModule_def loadFresh_def hostOf_fields hostImport_def Let_def)

lemma show_nat_4999: "show_nat 4999 = ''4999''"
  by (simp add: show_nat.simps digit_char_def)

lemma show_nat_5000: "show_nat 5000 = ''5000''"
  by (simp add: show_nat.simps digit_char_def)

lemma first_load:
  "loadOn first_platform Map.empty ''w.smiles.js''
     = (Inr \<lparr>lr_module = old_exports, lr_error = None\<rparr>,
        [''w.smiles.js:4999'' \<mapsto> old_exports], loaded_platform)"
proof -
  have "files first_platform ''w.smiles.js'' = Some (4999, Inr old_exports)"
    "Map.empty (cacheKey ''w.smiles.js'' 4999) = (None :: jsval option)"
    "moduleMap first_platform (importSpecifier ''w.smiles.js'' (now first_platform)) = None"
    by (simp_all add: first_platform_def)
  from load_new_specifier_fresh[of first_platform "''w.smiles.js''" 4999 old_exports Map.empty,
      OF this, THEN conjunct1] show ?thesis
    by (simp add: first_platform_def loaded_platform_def cacheKey_def importSpecifier_def
        pathToFileURL_def show_nat_4999 show_nat_5000)
qed

lemma second_load:
  "fst (loadOn rewritten_platform [''w.smiles.js:4999'' \<mapsto> old_exports] ''w.smiles.js'')
     = Inr \<lparr>lr_module = old_exports, lr_error = None\<rparr>
   \<and> fst (snd (loadOn rewritten_platform [''w.smiles.js:4999'' \<mapsto> old_exports] ''w.smiles.js''))
     = [''w.smiles.js:5000'' \<mapsto> old_exports]"
proof -
  have "files rewritten_platform ''w.smiles.js'' = Some (5000, Inr new_exports)"
    "[''w.smiles.js:4999'' \<mapsto> old_exports] (cacheKey ''w.smiles.js'' 5000) = None"
    "moduleMap rewritten_platform (importSpecifier ''w.smiles.js'' (now rewritten_platform))
       = Some old_exports"
    by (simp_all add: rewritten_platform_def writeFile_def loaded_platform_def cacheKey_def
        importSpecifier_def pathToFileURL_def show_nat_5000)
  from load_known_specifier_stale[of rewritten_platform "''w.smiles.js''" 5000 "Inr new_exports"
      "[''w.smiles.js:4999'' \<mapsto> old_exports]" old_exports, OF this] show ?thesis
    by (simp add: cacheKey_def show_nat_5000)
qed

text \<open>
  Claim C1 says that the exports which a load returns were captured at the present
  modification time of the file. The code does not keep this when a file is loaded,
  rewritten and loaded again within one millisecond of the clock. The file
  \<^verbatim>\<open>w.smiles.js\<close>, modified at 4999 and exporting water as \<^verbatim>\<open>O\<close>, is loaded while
  the clock shows 5000; it is rewritten, modified at 5000 and exporting water as
  \<^verbatim>\<open>OO\<close>, and loaded again while the clock still shows 5000. The second load reads
  the modification time 5000 and misses the cache, and its import has the specifier of
  the first: it returns the exports of the old text, which are not what the file
  evaluates to at its present modification time, and stores them under the key of the
  new modification time.
\<close>

theorem same_millisecond_reload_stale:
  "loadOn first_platform Map.empty ''w.smiles.js''
     = (Inr \<lparr>lr_module = old_exports, lr_error = None\<rparr>,
        [''w.smiles.js:4999'' \<mapsto> old_exports], loaded_platform)
   \<and> rewritten_platform = writeFile loaded_platform ''w.smiles.js'' 5000 (Inr new_exports)
   \<and> statSync (hostOf rewritten_platform) ''w.smiles.js'' = Inr 5000
   \<and> files rewritten_platform ''w.smiles.js'' = Some (5000, Inr new_exports)
   \<and> now rewritten_platform = now first_platform
   \<and> fst (loadOn rewritten_platform [''w.smiles.js:4999'' \<mapsto> old_exports] ''w.smiles.js'')
       = Inr \<lparr>lr_module = old_exports, lr_error = None\<rparr>
   \<and> fst (snd (loadOn rewritten_platform [''w.smiles.js:4999'' \<mapsto> old_exports] ''w.smiles.js''))
       = [''w.smiles.js:5000'' \<mapsto> old_exports]
   \<and> captured_now rewritten_platform ''w.smiles.js'' new_exports
   \<and> \<not> captured_now rewritten_platform ''w.smiles.js'' old_exports"
proof -
  have f: "files rewritten_platform ''w.smiles.js'' = Some (5000, Inr new_exports)"
    by (simp add: rewritten_platform_def writeFile_def)
  then have "statSync (hostOf rewritten_platform) ''w.smiles.js'' = Inr 5000"
    by (simp add: hostOf_fields)
  moreover have "now rewritten_platform = now first_platform"
    by (simp add: rewritten_platform_def writeFile_def loaded_platform_def first_platform_def)
  moreover have "old_exports \<noteq> new_exports" by (simp add: old_exports_def new_exports_def)
  with f have "captured_now rewritten_platform ''w.smiles.js'' new_exports"
    "\<not> captured_now rewritten_platform ''w.smiles.js'' old_exports"
    by (simp_all add: captured_now_def)
  ultimately show ?thesis using f first_load second_load
    by (simp add: rewritten_platform_def)
qed

text \<open>
  When the clock has gone on since the first load, the same second load returns the
  exports of the new text.
\<close>

lemma later_reload_fresh:
  "fst (loadOn (tick rewritten_platform 1) [''w.smiles.js:4999'' \<mapsto> old_exports] ''w.smiles.js'')
     = Inr \<lparr>lr_module = new_exports, lr_error = None\<rparr>"
proof -
  have "show_nat 5001 = ''5001''" by (simp add: show_nat.simps digit_char_def)
  then have "files (tick rewritten_platform 1) ''w.smiles.js'' = Some (5000, Inr new_exports)"
    "[''w.smiles.js:4999'' \<mapsto> old_exports] (cacheKey ''w.smiles.js'' 5000) = None"
    "moduleMap (tick rewritten_platform 1)
       (importSpecifier ''w.smiles.js'' (now (tick rewritten_platform 1))) = None"
    by (simp_all add: tick_def rewritten_platform_def writeFile_def loaded_platform_def
        cacheKey_def importSpecifier_def pathToFileURL_def show_nat_5000)
  from load_new_specifier_fresh[of "tick rewritten_platform 1" "''w.smiles.js''" 5000 new_exports
      "[''w.smiles.js:4999'' \<mapsto> old_exports]", OF this, THEN conjunct1] show ?thesis by simp
qed

subsection \<open>The order of the operations of a miss\<close>








subsection \<open>Diagnostics: positions and severities\<close>

lemma dsl_published:
  assumes "isSupportedFile doc" and "\<not> js_endsWith (fileName doc) ''.smiles.js''"
    and "loadWithImports h (getText doc) (fsPath doc) = Inr result"
  shows "updateDiagnostics h importErrors doc =
     Some (map errorDiagnostic (reported_errors result)
           @ map warningDiagnostic (reported_warnings result))"
  using assms
  by (simp add: updateDiagnostics_def selfiesDiagnostics_def reported_errors_def
      reported_warnings_def split: option.splits)

lemma issueRange_present:
  assumes "i_line e = Some l" and "i_column e = Some c"
  shows "issueRange e =
     \<lparr>r_start = \<lparr>p_line = l - 1, p_character = c - 1\<rparr>,
      r_end = \<lparr>p_line = l - 1,
               p_character = (case i_endColumn e of Some ec \<Rightarrow> ec - 1 | None \<Rightarrow> c)\<rparr>\<rparr>"
  using assms by (simp add: issueRange_def Let_def split: option.splits)

lemma nth_published:
  "k < length es + length ws \<Longrightarrow>
     dg_range ((map errorDiagnostic es @ map warningDiagnostic ws) ! k) = issueRange ((es @ ws) ! k)"
  by (simp add: nth_append errorDiagnostic_def warningDiagnostic_def)

text \<open>
  Claim C2. For a DSL document whose parse returns, the published set has one
  diagnostic for each reported error and warning, in that order. When the line and the
  column of an error or a warning are given (they are one-based), the range of its
  diagnostic starts at line minus one and column minus one; it ends on the same line at
  the end column minus one when the engine gives an end column, and otherwise at the
  zero-based start column plus one, which is the one-based column itself.
\<close>

theorem published_ranges_zero_based:
  assumes "isSupportedFile doc" and "\<not> js_endsWith (fileName doc) ''.smiles.js''"
    and "loadWithImports h (getText doc) (fsPath doc) = Inr result"
    and "issues = reported_errors result @ reported_warnings result"
  shows "\<exists>ds. updateDiagnostics h importErrors doc = Some ds \<and> length ds = length issues
    \<and> (\<forall>k l c. k < length issues \<and> i_line (issues ! k) = Some l \<and> i_column (issues ! k) = Some c
          \<longrightarrow> r_start (dg_range (ds ! k)) = \<lparr>p_line = l - 1, p_character = c - 1\<rparr>
            \<and> r_end (dg_range (ds ! k)) =
                \<lparr>p_line = l - 1,
                 p_character = (case i_endColumn (issues ! k) of
                                  Some ec \<Rightarrow> ec - 1
                                | None \<Rightarrow> (c - 1) + 1)\<rparr>
            \<and> (c - 1) + 1 = c)"
proof -
  let ?ds = "map errorDiagnostic (reported_errors result)
             @ map warningDiagnostic (reported_warnings result)"
  have p: "updateDiagnostics h importErrors doc = Some ?ds"
    using assms(1-3) by (rule dsl_published)
  have n: "length ?ds = length issues" by (simp add: assms(4))
  have r: "\<forall>k l c. k < length issues \<and> i_line (issues ! k) = Some l \<and> i_column (issues ! k) = Some c
          \<longrightarrow> r_start (dg_range (?ds ! k)) = \<lparr>p_line = l - 1, p_character = c - 1\<rparr>
            \<and> r_end (dg_range (?ds ! k)) =
                \<lparr>p_line = l - 1,
                 p_character = (case i_endColumn (issues ! k) of
                                  Some ec \<Rightarrow> ec - 1
                                | None \<Rightarrow> (c - 1) + 1)\<rparr>
            \<and> (c - 1) + 1 = c"
  proof (intro allI impI)
    fix k l c
    assume a: "k < length issues \<and> i_line (issues ! k) = Some l \<and> i_column (issues ! k) = Some c"
    then have "k < length (reported_errors result) + length (reported_warnings result)"
      by (simp add: assms(4))
    then have "dg_range (?ds ! k) = issueRange (issues ! k)"
      unfolding assms(4) by (rule nth_published)
    with a show "r_start (dg_range (?ds ! k)) = \<lparr>p_line = l - 1, p_character = c - 1\<rparr>
            \<and> r_end (dg_range (?ds ! k)) =
                \<lparr>p_line = l - 1,
                 p_character = (case i_endColumn (issues ! k) of
                                  Some ec \<Rightarrow> ec - 1
                                | None \<Rightarrow> (c - 1) + 1)\<rparr>
            \<and> (c - 1) + 1 = c"
      by (simp add: issueRange_present split: option.splits)
  qed
  from p n r show ?thesis by blast
qed

lemma reporting_supported: "isSupportedFile dsl_document"
  by (simp add: isSupportedFile_def dsl_document_def)

lemma reporting_not_js: "\<not> js_endsWith (fileName dsl_document) ''.smiles.js''"
  by (simp add: js_endsWith_def dsl_document_def)

lemma reporting_parse:
  "loadWithImports reporting_host (getText dsl_document) (fsPath dsl_document) = Inr reporting_result"
  by (simp add: reporting_host_def)

lemma reporting_issues:
  "reported_errors reporting_result @ reported_warnings reporting_result
     = [duplicate_error, info_warning]"
  by (simp add: reported_errors_def reported_warnings_def reporting_result_def)

theorem published_ranges_zero_based_witness:
  "\<exists>ds. updateDiagnostics reporting_host [] dsl_document = Some ds \<and> length ds = 2
     \<and> dg_range (ds ! 0) = \<lparr>r_start = \<lparr>p_line = 2, p_character = 0\<rparr>,
                             r_end = \<lparr>p_line = 2, p_character = 1\<rparr>\<rparr>
     \<and> dg_range (ds ! 1) = \<lparr>r_start = \<lparr>p_line = 1, p_character = 4\<rparr>,
                             r_end = \<lparr>p_line = 1, p_character = 8\<rparr>\<rparr>"
proof -
  from published_ranges_zero_based[OF reporting_supported reporting_not_js reporting_parse
      reporting_issues[symmetric], of "[]"]
  obtain ds where d: "updateDiagnostics reporting_host [] dsl_document = Some ds"
    "length ds = length [duplicate_error, info_warning]"
    and r: "\<forall>k l c. k < length [duplicate_error, info_warning]
          \<and> i_line ([duplicate_error, info_warning] ! k) = Some l
          \<and> i_column ([duplicate_error, info_warning] ! k) = Some c
          \<longrightarrow> r_start (dg_range (ds ! k)) = \<lparr>p_line = l - 1, p_character = c - 1\<rparr>
            \<and> r_end (dg_range (ds ! k)) =
                \<lparr>p_line = l - 1,
                 p_character = (case i_endColumn ([duplicate_error, info_warning] ! k) of
                                  Some ec \<Rightarrow> ec - 1
                                | None \<Rightarrow> (c - 1) + 1)\<rparr>
            \<and> (c - 1) + 1 = c"
    by blast
  from r[rule_format, of 0 3 1] r[rule_format, of 1 2 5]
  have "dg_range (ds ! 0) = \<lparr>r_start = \<lparr>p_line = 2, p_character = 0\<rparr>,
                             r_end = \<lparr>p_line = 2, p_character = 1\<rparr>\<rparr>"
    "dg_range (ds ! 1) = \<lparr>r_start = \<lparr>p_line = 1, p_character = 4\<rparr>,
                             r_end = \<lparr>p_line = 1, p_character = 8\<rparr>\<rparr>"
    by (simp_all add: duplicate_error_def info_warning_def vs_range.equality)
  with d show ?thesis by simp
qed

lemma getSeverity_table: "getSeverity c = severity_table c"
  by (cases c) (simp_all add: getSeverity_def severity_table_def)

text \<open>
  Claim C3, as stated, fails for warnings. The parse of the example reports a warning
  of the category \<^verbatim>\<open>info\<close>, for which the table has \<open>Information\<close>; the published
  diagnostic of that warning has the severity \<open>Warning\<close>.
\<close>

theorem warning_severity_counterexample:
  "updateDiagnostics reporting_host [] dsl_document
     = Some [errorDiagnostic duplicate_error, warningDiagnostic info_warning]
   \<and> reported_warnings reporting_result = [info_warning]
   \<and> dg_severity (warningDiagnostic info_warning) \<noteq> severity_table (category info_warning)"
proof -
  have "updateDiagnostics reporting_host [] dsl_document
          = Some [errorDiagnostic duplicate_error, warningDiagnostic info_warning]"
    using dsl_published[OF reporting_supported reporting_not_js reporting_parse, of "[]"]
    by (simp add: reported_errors_def reported_warnings_def reporting_result_def)
  moreover have "severity_table (category info_warning) = Information"
    by (simp add: severity_table_def category_def info_warning_def)
  ultimately show ?thesis
    by (simp add: reported_warnings_def reporting_result_def warningDiagnostic_def)
qed

text \<open>
  Claim C3, amended. For every error that the parse reports, the severity of the
  published diagnostic is what the table of the specification gives for the category of
  the error, which is its type or, when the type is absent or empty, its severity
  field: \<^verbatim>\<open>error\<close>, \<^verbatim>\<open>syntax\<close>, \<^verbatim>\<open>undefined\<close>, \<^verbatim>\<open>circular\<close> and \<^verbatim>\<open>redefinition\<close>
  give \<open>Error\<close>, \<^verbatim>\<open>warning\<close> and \<^verbatim>\<open>chemistry\<close> give \<open>Warning\<close>, \<^verbatim>\<open>info\<close> gives
  \<open>Information\<close>, \<^verbatim>\<open>hint\<close> gives \<open>Hint\<close> and anything else gives \<open>Error\<close>. For
  every warning that the parse reports, the severity is \<open>Warning\<close>, whatever its
  category.
\<close>

theorem published_severities:
  assumes "isSupportedFile doc" and "\<not> js_endsWith (fileName doc) ''.smiles.js''"
    and "loadWithImports h (getText doc) (fsPath doc) = Inr result"
  shows "\<exists>ds. updateDiagnostics h importErrors doc = Some ds
    \<and> length ds = length (reported_errors result) + length (reported_warnings result)
    \<and> (\<forall>k < length (reported_errors result).
          dg_severity (ds ! k) = severity_table (category (reported_errors result ! k)))
    \<and> (\<forall>j < length (reported_warnings result).
          dg_severity (ds ! (length (reported_errors result) + j)) = Warning)"
proof -
  let ?es = "reported_errors result" and ?ws = "reported_warnings result"
  let ?ds = "map errorDiagnostic ?es @ map warningDiagnostic ?ws"
  have "updateDiagnostics h importErrors doc = Some ?ds"
    using assms by (rule dsl_published)
  moreover have "length ?ds = length ?es + length ?ws" by simp
  moreover have "\<forall>k < length ?es. dg_severity (?ds ! k) = severity_table (category (?es ! k))"
    by (simp add: nth_append errorDiagnostic_def getSeverity_table)
  moreover have "\<forall>j < length ?ws. dg_severity (?ds ! (length ?es + j)) = Warning"
    by (simp add: nth_append warningDiagnostic_def)
  ultimately show ?thesis by blast
qed

theorem published_severities_witness:
  "\<exists>ds. updateDiagnostics reporting_host [] dsl_document = Some ds \<and> length ds = 2
     \<and> dg_severity (ds ! 0) = Error \<and> dg_severity (ds ! 1) = Warning"
proof -
  from published_severities[OF reporting_supported reporting_not_js reporting_parse, of "[]"]
  obtain ds where d: "updateDiagnostics reporting_host [] dsl_document = Some ds"
    "length ds = length (reported_errors reporting_result) + length (reported_warnings reporting_result)"
    and e: "\<forall>k < length (reported_errors reporting_result).
          dg_severity (ds ! k) = severity_table (category (reported_errors reporting_result ! k))"
    and w: "\<forall>j < length (reported_warnings reporting_result).
          dg_severity (ds ! (length (reported_errors reporting_result) + j)) = Warning"
    by blast
  have es: "reported_errors reporting_result = [duplicate_error]"
    and ws: "reported_warnings reporting_result = [info_warning]"
    by (simp_all add: reported_errors_def reported_warnings_def reporting_result_def)
  from e[rule_format, of 0] have "dg_severity (ds ! 0) = Error"
    by (simp add: es severity_table_def category_def duplicate_error_def)
  moreover from w[rule_format, of 0] have "dg_severity (ds ! 1) = Warning"
    by (simp add: es ws)
  ultimately show ?thesis using d by (simp add: es ws)
qed

subsection \<open>The line tracker: when it resolves\<close>









subsection \<open>The line tracker: the DSL branch\<close>

lemma updateLineInfo_dsl:
  assumes "currentDocument st = Some uri" and "currentLine st = Some n"
    and "\<not> js_endsWith (fileName (docs h uri)) ''.smiles.js''"
    and "lineAt (docs h uri) n = Inr raw"
  shows "updateLineInfo h st = selfiesLineInfo h st uri n (js_trim raw)"
  using assms by (simp add: updateLineInfo_def Let_def)

lemma find_first:
  "find P xs = Some x \<Longrightarrow> x \<in> set xs \<and> P x"
  by (induction xs) (auto split: if_splits)

lemma find_none: "(find P xs = None) = (\<not> (\<exists>x \<in> set xs. P x))"
  by (induction xs) auto

text \<open>
  Claim C9, amended. For a DSL document whose line can be read and whose parse result
  is there or can be made, and a zero-based cursor line \<open>n\<close>: when the trimmed text of
  the line is empty or starts with \<^verbatim>\<open>#\<close>, the tracker fires \<^verbatim>\<open>null\<close> without looking
  at the definitions; otherwise it resolves the first definition, in the order of the
  parse result, whose one-based line is \<open>n + 1\<close>, and fires \<^verbatim>\<open>null\<close> when no
  definition has that line.
\<close>

theorem dsl_line_lookup:
  assumes "currentDocument st = Some uri" and "currentLine st = Some n"
    and "\<not> js_endsWith (fileName (docs h uri)) ''.smiles.js''"
    and "lineAt (docs h uri) n = Inr raw"
    and "ensureParsed h st uri = Inr pr"
  shows "fired (updateLineInfo h st) =
      [if js_trim raw = [] \<or> js_startsWith (js_trim raw) ''#'' then None
       else (case find (\<lambda>d. d_line d = int n + 1) (definitionsOf pr) of
               None \<Rightarrow> None
             | Some d \<Rightarrow> Some (definitionLineInfo h pr n d))]
    \<and> (\<forall>d. find (\<lambda>d. d_line d = int n + 1) (definitionsOf pr) = Some d \<longrightarrow>
          d \<in> set (definitionsOf pr) \<and> d_line d = int n + 1
          \<and> li_line (definitionLineInfo h pr n d) = n
          \<and> li_name (definitionLineInfo h pr n d) = JStr (d_name d))
    \<and> ((find (\<lambda>d. d_line d = int n + 1) (definitionsOf pr) = None)
         = (\<not> (\<exists>d \<in> set (definitionsOf pr). d_line d = int n + 1)))"
proof -
  have "fired (selfiesLineInfo h st uri n (js_trim raw)) =
      [if js_trim raw = [] \<or> js_startsWith (js_trim raw) ''#'' then None
       else (case find (\<lambda>d. d_line d = int n + 1) (definitionsOf pr) of
               None \<Rightarrow> None
             | Some d \<Rightarrow> Some (definitionLineInfo h pr n d))]"
    using assms(5) by (simp add: selfiesLineInfo_def fire_def Let_def split: option.splits)
  then have a: "fired (updateLineInfo h st) =
      [if js_trim raw = [] \<or> js_startsWith (js_trim raw) ''#'' then None
       else (case find (\<lambda>d. d_line d = int n + 1) (definitionsOf pr) of
               None \<Rightarrow> None
             | Some d \<Rightarrow> Some (definitionLineInfo h pr n d))]"
    using updateLineInfo_dsl[OF assms(1-4)] by simp
  have b: "li_line (definitionLineInfo h pr n d) = n
      \<and> li_name (definitionLineInfo h pr n d) = JStr (d_name d)" for d
    by (simp add: definitionLineInfo_def Let_def split: sum.splits prod.splits)
  have c: "\<forall>d. find (\<lambda>d. d_line d = int n + 1) (definitionsOf pr) = Some d \<longrightarrow>
          d \<in> set (definitionsOf pr) \<and> d_line d = int n + 1
          \<and> li_line (definitionLineInfo h pr n d) = n
          \<and> li_name (definitionLineInfo h pr n d) = JStr (d_name d)"
    using find_first[of "\<lambda>d. d_line d = int n + 1" "definitionsOf pr"] b by blast
  from a c find_none[of "\<lambda>d. d_line d = int n + 1" "definitionsOf pr"] show ?thesis by blast
qed

lemma weightless_reach:
  "currentDocument attached = Some ''m.selfies''" "currentLine attached = Some 0"
  "\<not> js_endsWith (fileName (docs weightless_host ''m.selfies'')) ''.smiles.js''"
  "lineAt (docs weightless_host ''m.selfies'') 0 = Inr ''[a] = [C]''"
  "ensureParsed weightless_host attached ''m.selfies'' = Inr carbon_result"
  by (simp_all add: attached_def emptyTracker_def weightless_host_def reporting_host_def
      dsl_document_def js_endsWith_def ensureParsed_def)

lemma carbon_found:
  "find (\<lambda>d. d_line d = int 0 + 1) (definitionsOf carbon_result) = Some carbon_definition"
  by (simp add: definitionsOf_def carbon_result_def carbon_definition_def)

lemma carbon_line_text: "js_trim ''[a] = [C]'' = ''[a] = [C]''"
  by (simp add: js_trim_def is_space_def)

theorem dsl_line_lookup_witness:
  "fired (updateLineInfo weightless_host attached)
     = [Some (definitionLineInfo weightless_host carbon_result 0 carbon_definition)]
   \<and> li_name (definitionLineInfo weightless_host carbon_result 0 carbon_definition) = JStr ''a''"
proof -
  note l = dsl_line_lookup[OF weightless_reach]
  from l have "fired (updateLineInfo weightless_host attached) =
      [if js_trim ''[a] = [C]'' = [] \<or> js_startsWith (js_trim ''[a] = [C]'') ''#'' then None
       else (case find (\<lambda>d. d_line d = int 0 + 1) (definitionsOf carbon_result) of
               None \<Rightarrow> None
             | Some d \<Rightarrow> Some (definitionLineInfo weightless_host carbon_result 0 d))]"
    by blast
  then have a: "fired (updateLineInfo weightless_host attached)
     = [Some (definitionLineInfo weightless_host carbon_result 0 carbon_definition)]"
    unfolding carbon_found carbon_line_text by (simp add: js_startsWith_def)
  from l carbon_found
  have "li_name (definitionLineInfo weightless_host carbon_result 0 carbon_definition)
          = JStr (d_name carbon_definition)"
    by blast
  then have "li_name (definitionLineInfo weightless_host carbon_result 0 carbon_definition)
          = JStr ''a''"
    by (simp add: carbon_definition_def)
  with a show ?thesis by simp
qed

lemma comment_reach:
  "currentDocument attached = Some ''m.selfies''" "currentLine attached = Some 0"
  "\<not> js_endsWith (fileName (docs comment_host ''m.selfies'')) ''.smiles.js''"
  "lineAt (docs comment_host ''m.selfies'') 0 = Inr ''# note''"
  "ensureParsed comment_host attached ''m.selfies'' = Inr carbon_result"
  by (simp_all add: attached_def emptyTracker_def comment_host_def comment_document_def
      weightless_host_def reporting_host_def dsl_document_def js_endsWith_def ensureParsed_def)

lemma comment_line_text: "js_trim ''# note'' = ''# note''"
  by (simp add: js_trim_def is_space_def)

text \<open>
  Claim C9, as stated, fails. The cursor is on line 0, a comment, and the parse result
  has a definition whose line is 1; the tracker fires \<^verbatim>\<open>null\<close> and does not resolve
  that definition.
\<close>

theorem comment_line_counterexample:
  "currentDocument attached = Some ''m.selfies'' \<and> currentLine attached = Some 0
   \<and> ensureParsed comment_host attached ''m.selfies'' = Inr carbon_result
   \<and> carbon_definition \<in> set (definitionsOf carbon_result)
   \<and> d_line carbon_definition = int 0 + 1
   \<and> fired (updateLineInfo comment_host attached) = [None]"
proof -
  have "fired (selfiesLineInfo comment_host attached ''m.selfies'' 0 ''# note'') = [None]"
    using comment_reach(5)
    by (simp add: selfiesLineInfo_def fire_def Let_def js_startsWith_def)
  then have "fired (updateLineInfo comment_host attached) = [None]"
    using updateLineInfo_dsl[OF comment_reach(1-4)] by (simp add: comment_line_text)
  with comment_reach show ?thesis
    by (simp add: definitionsOf_def carbon_result_def carbon_definition_def)
qed

subsection \<open>The line tracker: partial failure\<close>

lemma info_basic:
  "li_line (definitionLineInfo h pr n d) = n
   \<and> li_name (definitionLineInfo h pr n d) = JStr (d_name d)
   \<and> li_expression (definitionLineInfo h pr n d) = JStr (expressionOf d)"
  by (simp add: definitionLineInfo_def Let_def split: sum.splits prod.splits)

lemma resolver_throws:
  assumes "resolve h pr (d_name d) = Inl err"
  shows "li_error (definitionLineInfo h pr n d)
     = JStr (if message err = [] then ''Could not resolve definition'' else message err)"
  using assms by (simp add: definitionLineInfo_def Let_def)

lemma decoder_throws:
  assumes "resolve h pr (d_name d) = Inr s" and "truthy s" and "decode h s = Inl err"
  shows "li_selfies (definitionLineInfo h pr n d) = s
    \<and> li_smiles (definitionLineInfo h pr n d) = JNull
    \<and> li_error (definitionLineInfo h pr n d) = JStr (message err)"
  using assms by (simp add: definitionLineInfo_def Let_def split: sum.splits prod.splits)

lemma decoder_returns:
  assumes "resolve h pr (d_name d) = Inr s" and "truthy s" and "decode h s = Inr v"
  shows "li_selfies (definitionLineInfo h pr n d) = s
    \<and> li_smiles (definitionLineInfo h pr n d) = v
    \<and> li_error (definitionLineInfo h pr n d) = JNull
    \<and> (\<forall>w. getMolecularWeight h s = Inr w \<longrightarrow> li_molecularWeight (definitionLineInfo h pr n d) = w)"
  using assms by (simp add: definitionLineInfo_def Let_def split: sum.splits prod.splits)

text \<open>
  Claim C4, amended. When a definition is found on the line, the fired object always
  has the line, the name and the expression string. When the resolver throws, its
  error is the message of the exception, or \<^verbatim>\<open>Could not resolve definition\<close> when
  that message is empty. When the resolver succeeds and the decoder throws, the object
  keeps the notation of the resolver and its error is the message of the exception.
  When both succeed, the error is \<^verbatim>\<open>null\<close> whether or not a property lookup throws:
  an exception of a lookup is dropped; the object keeps the notation and the decoded
  notation, and the molecular weight whenever its lookup returned.
\<close>

theorem partial_failure_fields:
  assumes "currentDocument st = Some uri" and "currentLine st = Some n"
    and "\<not> js_endsWith (fileName (docs h uri)) ''.smiles.js''"
    and "lineAt (docs h uri) n = Inr raw"
    and "ensureParsed h st uri = Inr pr"
    and "js_trim raw \<noteq> []" and "\<not> js_startsWith (js_trim raw) ''#''"
    and "find (\<lambda>d. d_line d = int n + 1) (definitionsOf pr) = Some d"
  shows "\<exists>info. fired (updateLineInfo h st) = [Some info]
    \<and> li_line info = n \<and> li_name info = JStr (d_name d)
    \<and> li_expression info = JStr (expressionOf d)
    \<and> (\<forall>err. resolve h pr (d_name d) = Inl err \<longrightarrow>
          li_error info
            = JStr (if message err = [] then ''Could not resolve definition'' else message err))
    \<and> (\<forall>s err. resolve h pr (d_name d) = Inr s \<and> truthy s \<and> decode h s = Inl err \<longrightarrow>
          li_selfies info = s \<and> li_smiles info = JNull \<and> li_error info = JStr (message err))
    \<and> (\<forall>s v. resolve h pr (d_name d) = Inr s \<and> truthy s \<and> decode h s = Inr v \<longrightarrow>
          li_selfies info = s \<and> li_smiles info = v \<and> li_error info = JNull
          \<and> (\<forall>w. getMolecularWeight h s = Inr w \<longrightarrow> li_molecularWeight info = w))"
proof -
  have "fired (selfiesLineInfo h st uri n (js_trim raw)) = [Some (definitionLineInfo h pr n d)]"
    using assms(5-8) by (simp add: selfiesLineInfo_def fire_def Let_def)
  then have "fired (updateLineInfo h st) = [Some (definitionLineInfo h pr n d)]"
    using updateLineInfo_dsl[OF assms(1-4)] by simp
  with info_basic[of h pr n d] resolver_throws[of h pr d _ n] decoder_throws[of h pr d _ _ n]
    decoder_returns[of h pr d _ _ n]
  show ?thesis by blast
qed

lemma weightless_stages:
  "resolve weightless_host carbon_result (d_name carbon_definition) = Inr (JStr ''[C]'')"
  "decode weightless_host (JStr ''[C]'') = Inr (JStr ''C'')"
  "getMolecularWeight weightless_host (JStr ''[C]'') = Inl \<lparr>message = ''no weight'', stack = None\<rparr>"
  by (simp_all add: weightless_host_def reporting_host_def)

lemma weightless_info:
  "definitionLineInfo weightless_host carbon_result 0 carbon_definition
     = \<lparr>li_line = 0, li_name = JStr ''a'', li_expression = JStr ''[C]'',
        li_selfies = JStr ''[C]'', li_smiles = JStr ''C'', li_molecularWeight = JNull,
        li_formula = JNull, li_error = JNull\<rparr>"
  by (simp add: definitionLineInfo_def weightless_stages Let_def expressionOf_def)
    (simp add: carbon_definition_def formatTokens_def)

theorem partial_failure_fields_witness:
  "\<exists>info. fired (updateLineInfo weightless_host attached) = [Some info]
     \<and> li_expression info = JStr ''[C]'' \<and> li_selfies info = JStr ''[C]''
     \<and> li_smiles info = JStr ''C'' \<and> li_error info = JNull"
proof -
  have t: "js_trim ''[a] = [C]'' \<noteq> []" "\<not> js_startsWith (js_trim ''[a] = [C]'') ''#''"
    by (simp_all add: carbon_line_text js_startsWith_def)
  from partial_failure_fields[OF weightless_reach t carbon_found]
  obtain info where i: "fired (updateLineInfo weightless_host attached) = [Some info]"
    "li_expression info = JStr (expressionOf carbon_definition)"
    and r: "\<forall>s v. resolve weightless_host carbon_result (d_name carbon_definition) = Inr s
          \<and> truthy s \<and> decode weightless_host s = Inr v \<longrightarrow>
          li_selfies info = s \<and> li_smiles info = v \<and> li_error info = JNull
          \<and> (\<forall>w. getMolecularWeight weightless_host s = Inr w \<longrightarrow> li_molecularWeight info = w)"
    by blast
  from r[rule_format, of "JStr ''[C]''" "JStr ''C''"] weightless_stages
  have "li_selfies info = JStr ''[C]''" "li_smiles info = JStr ''C''" "li_error info = JNull"
    by simp_all
  moreover have "expressionOf carbon_definition = ''[C]''"
    by (simp add: expressionOf_def formatTokens_def carbon_definition_def)
  ultimately show ?thesis using i by simp
qed

text \<open>
  Claim C4, as stated, fails for the property lookups. In the example the resolver and
  the decoder succeed and the lookup of the molecular weight throws; the fired object
  has \<^verbatim>\<open>null\<close> as its error, not the message of the exception.
\<close>

theorem lookup_failure_counterexample:
  "getMolecularWeight weightless_host (JStr ''[C]'') = Inl \<lparr>message = ''no weight'', stack = None\<rparr>
   \<and> fired (updateLineInfo weightless_host attached)
       = [Some \<lparr>li_line = 0, li_name = JStr ''a'', li_expression = JStr ''[C]'',
                li_selfies = JStr ''[C]'', li_smiles = JStr ''C'', li_molecularWeight = JNull,
                li_formula = JNull, li_error = JNull\<rparr>]
   \<and> map (map_option li_error) (fired (updateLineInfo weightless_host attached))
       \<noteq> [Some (JStr ''no weight'')]"
proof -
  have "fired (selfiesLineInfo weightless_host attached ''m.selfies'' 0 ''[a] = [C]'')
          = [Some (definitionLineInfo weightless_host carbon_result 0 carbon_definition)]"
    using weightless_reach(5) carbon_found
    by (simp add: selfiesLineInfo_def fire_def Let_def js_startsWith_def)
  then have "fired (updateLineInfo weightless_host attached)
          = [Some (definitionLineInfo weightless_host carbon_result 0 carbon_definition)]"
    using updateLineInfo_dsl[OF weightless_reach(1-4)] by (simp add: carbon_line_text)
  then show ?thesis by (simp add: weightless_info weightless_stages)
qed

subsection \<open>The line tracker: the build-format branch\<close>

lemma updateLineInfo_js:
  assumes "currentDocument st = Some uri" and "currentLine st = Some n"
    and "js_endsWith (fileName (docs h uri)) ''.smiles.js''"
    and "lineAt (docs h uri) n = Inr raw"
  shows "updateLineInfo h st = smilesJSLineInfo h st uri n (js_trim raw)"
  using assms by (simp add: updateLineInfo_def Let_def)

text \<open>
  Claim C10. In a build-format document, when the line holds a declaration, the load
  of the module returns without an error and the \<^verbatim>\<open>smiles\<close> property of what the
  declared name resolves to is falsy, as an absent property, \<^verbatim>\<open>null\<close> and the empty
  string are, the tracker fires \<^verbatim>\<open>null\<close>, and nothing else; the state it leaves does
  not depend on that value either.
\<close>

theorem falsy_notation_emits_null:
  assumes "currentDocument st = Some uri" and "currentLine st = Some n"
    and "js_endsWith (fileName (docs h uri)) ''.smiles.js''"
    and "lineAt (docs h uri) n = Inr raw"
    and "js_trim raw \<noteq> []" and "\<not> js_startsWith (js_trim raw) ''//''"
    and "\<not> js_startsWith (js_trim raw) ''/*''"
    and "findConstAtLine (getText (docs h uri)) n = Some constInfo"
    and "loadSmilesModule h (smilesModuleCache st) (fileName (docs h uri)) = (Inr r, cache', ops)"
    and "lr_error r = None"
    and "\<not> truthy (get_prop (get_prop (lr_module r) (ci_name constInfo)) ''smiles'')"
  shows "fired (updateLineInfo h st) = [None]
    \<and> next_state (updateLineInfo h st) = st\<lparr>smilesModuleCache := cache'\<rparr>
    \<and> \<not> truthy JUndefined \<and> \<not> truthy JNull \<and> \<not> truthy (JStr [])"
proof -
  have "smilesJSLineInfo h st uri n (js_trim raw)
     = fire (st\<lparr>smilesModuleCache := cache'\<rparr>) None
         (if needsExport constInfo \<and> activeTextEditor h = Some uri
          then [Edit [(n, (case constPosition constInfo of Some c \<Rightarrow> c | None \<Rightarrow> 0), ''export '')],
                Save]
          else [])"
    using assms(5-11) by (simp add: smilesJSLineInfo_def Let_def)
  then show ?thesis
    using updateLineInfo_js[OF assms(1-4)] by (simp add: fire_def)
qed

lemma water_found:
  "findConstAtLine water_line 0
     = Some \<lparr>ci_name = ''water'', needsExport = False, constPosition = None\<rparr>"
  unfolding water_line_def sq_def by code_simp

lemma water_key: "cacheKey ''w.smiles.js'' 7 = ''w.smiles.js:7''"
  by (simp add: cacheKey_def show_nat.simps digit_char_def)

lemma water_load:
  "loadSmilesModule water_host (smilesModuleCache water_tracker) ''w.smiles.js''
     = (Inr \<lparr>lr_module = empty_notation_module, lr_error = None\<rparr>,
        [''w.smiles.js:7'' \<mapsto> empty_notation_module],
        [StatSync ''w.smiles.js'', CacheHas ''w.smiles.js:7'', RequirePurge ''w.smiles.js'',
         DynamicImport ''w.smiles.js'', CacheClear, CacheSet ''w.smiles.js:7''])"
  by (simp add: loadSmilesModule_def loadFresh_def water_key Let_def water_host_def
      reporting_host_def water_tracker_def emptyTracker_def)

lemma water_line_text: "js_trim water_line = water_line"
  by (simp add: js_trim_def water_line_def sq_def is_space_def)

theorem falsy_notation_emits_null_witness:
  "get_prop (get_prop empty_notation_module ''water'') ''smiles'' = JStr []
   \<and> fired (updateLineInfo water_host water_tracker) = [None]"
proof -
  have a: "currentDocument water_tracker = Some ''w.smiles.js''"
    "currentLine water_tracker = Some 0"
    "js_endsWith (fileName (docs water_host ''w.smiles.js'')) ''.smiles.js''"
    "lineAt (docs water_host ''w.smiles.js'') 0 = Inr water_line"
    by (simp_all add: water_tracker_def emptyTracker_def water_host_def reporting_host_def
        water_document_def js_endsWith_def)
  have b: "js_trim water_line \<noteq> []" "\<not> js_startsWith (js_trim water_line) ''//''"
    "\<not> js_startsWith (js_trim water_line) ''/*''"
    unfolding water_line_text by (simp_all add: water_line_def js_startsWith_def)
  have c: "findConstAtLine (getText (docs water_host ''w.smiles.js'')) 0
     = Some \<lparr>ci_name = ''water'', needsExport = False, constPosition = None\<rparr>"
    using water_found by (simp add: water_host_def reporting_host_def water_document_def)
  have d: "loadSmilesModule water_host (smilesModuleCache water_tracker)
       (fileName (docs water_host ''w.smiles.js''))
     = (Inr \<lparr>lr_module = empty_notation_module, lr_error = None\<rparr>,
        [''w.smiles.js:7'' \<mapsto> empty_notation_module],
        [StatSync ''w.smiles.js'', CacheHas ''w.smiles.js:7'', RequirePurge ''w.smiles.js'',
         DynamicImport ''w.smiles.js'', CacheClear, CacheSet ''w.smiles.js:7''])"
    using water_load by (simp add: water_host_def reporting_host_def water_document_def)
  have e: "get_prop (get_prop empty_notation_module ''water'') ''smiles'' = JStr []"
    by (simp add: empty_notation_module_def)
  have "fired (updateLineInfo water_host water_tracker) = [None]"
    using falsy_notation_emits_null[OF a b c d] e by simp
  with e show ?thesis by simp
qed

subsection \<open>The refactor command\<close>

lemma bare_water_found:
  "findExportAtLine bare_water_line 0
     = Some \<lparr>ci_name = ''water'', needsExport = True, constPosition = Some 0\<rparr>"
  unfolding bare_water_line_def sq_def by code_simp

lemma bare_water_inserted:
  "insert_text bare_water_line 0 0 ''export '' = ''export '' @ bare_water_line"
  unfolding bare_water_line_def sq_def insert_text_def split_lines_def LF_def by simp

lemma bare_water_refactor:
  "refactorMolecule failing_loader (Some bare_water_editor)
     = \<lparr>rr_notices = [ErrorMessage (''Could not load export '' @ dq @ ''water'' @ dq)],
        rr_edits = [Edit [(0, 0, ''export '')], Save]\<rparr>"
  by (simp add: refactorMolecule_def bare_water_editor_def js_endsWith_def bare_water_found
      loadModule_def failing_loader_def Let_def addExport_def)

text \<open>
  Claim C6, as stated, fails. The declaration on the line has no export marker and the
  module cannot be loaded: the command shows one error message, but it has inserted
  \<^verbatim>\<open>export\<close> before the declaration and saved the document, so the text is not what
  it was.
\<close>

theorem refactor_failure_counterexample:
  "refactorMolecule failing_loader (Some bare_water_editor)
     = \<lparr>rr_notices = [ErrorMessage (''Could not load export '' @ dq @ ''water'' @ dq)],
        rr_edits = [Edit [(0, 0, ''export '')], Save]\<rparr>
   \<and> insert_text (ev_text bare_water_editor) 0 0 ''export '' \<noteq> ev_text bare_water_editor"
proof -
  have "ev_text bare_water_editor = bare_water_line" by (simp add: bare_water_editor_def)
  then have "insert_text (ev_text bare_water_editor) 0 0 ''export ''
      = ''export '' @ ev_text bare_water_editor"
    by (simp only: bare_water_inserted)
  then have "insert_text (ev_text bare_water_editor) 0 0 ''export '' \<noteq> ev_text bare_water_editor"
    by simp
  with bare_water_refactor show ?thesis by (rule_tac conjI)
qed

lemma refactor_no_editor:
  "refactorMolecule h None = \<lparr>rr_notices = [ErrorMessage ''No active editor''], rr_edits = []\<rparr>"
  by (simp add: refactorMolecule_def)

lemma refactor_other_file:
  "\<not> js_endsWith (ev_fileName ed) ''.smiles.js'' \<Longrightarrow>
   refactorMolecule h (Some ed)
     = \<lparr>rr_notices = [ErrorMessage ''This command only works in .smiles.js files''],
        rr_edits = []\<rparr>"
  by (simp add: refactorMolecule_def)

lemma refactor_no_declaration:
  "js_endsWith (ev_fileName ed) ''.smiles.js'' \<Longrightarrow>
   findExportAtLine (ev_text ed) (ev_line ed) = None \<Longrightarrow>
   refactorMolecule h (Some ed)
     = \<lparr>rr_notices = [ErrorMessage ''No const declaration found on the current line''],
        rr_edits = []\<rparr>"
  by (simp add: refactorMolecule_def)

lemma addExport_edits:
  "snd (addExport text n info)
     = (if needsExport info
        then [Edit [(n, (case constPosition info of Some c \<Rightarrow> c | None \<Rightarrow> 0), ''export '')], Save]
        else [Save])"
  by (simp add: addExport_def Let_def)

text \<open>
  With a declaration on the line, each of the three failures after the step that adds
  the export marker gives its own error message, and the edits are those of that step.
\<close>

lemma refactor_load_fails:
  assumes "js_endsWith (ev_fileName ed) ''.smiles.js''"
    and "findExportAtLine (ev_text ed) (ev_line ed) = Some info"
    and "loadOrLookupFails h ed info"
  shows "refactorMolecule h (Some ed)
     = \<lparr>rr_notices = [ErrorMessage (''Could not load export '' @ dq @ ci_name info @ dq)],
        rr_edits = snd (addExport (ev_text ed) (ev_line ed) info)\<rparr>"
proof -
  obtain body es where "addExport (ev_text ed) (ev_line ed) info = (body, es)"
    by (cases "addExport (ev_text ed) (ev_line ed) info")
  with assms show ?thesis
    by (simp add: refactorMolecule_def Let_def loadOrLookupFails_def)
qed

lemma refactor_no_generator:
  assumes "js_endsWith (ev_fileName ed) ''.smiles.js''"
    and "findExportAtLine (ev_text ed) (ev_line ed) = Some info"
    and "\<not> loadOrLookupFails h ed info" and "lacksCodeGeneration h ed info"
  shows "refactorMolecule h (Some ed)
     = \<lparr>rr_notices = [ErrorMessage (''Export '' @ dq @ ci_name info @ dq
                                      @ '' does not have a toCode() method'')],
        rr_edits = snd (addExport (ev_text ed) (ev_line ed) info)\<rparr>"
proof -
  obtain body es where ae: "addExport (ev_text ed) (ev_line ed) info = (body, es)"
    by (cases "addExport (ev_text ed) (ev_line ed) info")
  from assms(3) have t: "truthy (loadModule h (ev_fileName ed))"
    "truthy (get_prop (loadModule h (ev_fileName ed)) (ci_name info))"
    by (simp_all add: loadOrLookupFails_def)
  show ?thesis
  proof (cases "get_prop (get_prop (loadModule h (ev_fileName ed)) (ci_name info)) ''toCode''")
    case (JFun toCode)
    with assms(4) show ?thesis by (simp add: lacksCodeGeneration_def generator_def)
  qed (use assms(1,2) ae t in \<open>simp_all add: refactorMolecule_def Let_def\<close>)
qed

lemma refactor_generation_throws:
  assumes "js_endsWith (ev_fileName ed) ''.smiles.js''"
    and "findExportAtLine (ev_text ed) (ev_line ed) = Some info"
    and "\<not> loadOrLookupFails h ed info" and "generationThrows h ed info"
  shows "\<exists>err :: js_error. refactorMolecule h (Some ed)
     = \<lparr>rr_notices = [ErrorMessage (''Failed to generate code: '' @ message err)],
        rr_edits = snd (addExport (ev_text ed) (ev_line ed) info)\<rparr>"
proof -
  obtain body es where ae: "addExport (ev_text ed) (ev_line ed) info = (body, es)"
    by (cases "addExport (ev_text ed) (ev_line ed) info")
  from assms(3) have t: "truthy (loadModule h (ev_fileName ed))"
    "truthy (get_prop (loadModule h (ev_fileName ed)) (ci_name info))"
    by (simp_all add: loadOrLookupFails_def)
  from assms(4) obtain toCode err
    where g: "get_prop (get_prop (loadModule h (ev_fileName ed)) (ci_name info)) ''toCode''
                = JFun toCode"
      and e: "toCode (ci_name info) = Inl err"
    by (auto simp: generationThrows_def generator_def split: jsval.splits sum.splits)
  from assms(1,2) ae t g e have "refactorMolecule h (Some ed)
     = \<lparr>rr_notices = [ErrorMessage (''Failed to generate code: '' @ message err)],
        rr_edits = snd (addExport (ev_text ed) (ev_line ed) info)\<rparr>"
    by (simp add: refactorMolecule_def Let_def)
  then show ?thesis by blast
qed

text \<open>
  When none of the failures holds, the command shows its information message and makes
  the splice after the edits of the export step: the failures are all the ways to fail.
\<close>

lemma refactor_succeeds:
  assumes "\<not> refactor_fails h editor"
  shows "\<exists>ed info m e. editor = Some ed
     \<and> findExportAtLine (ev_text ed) (ev_line ed) = Some info
     \<and> refactorMolecule h editor
         = \<lparr>rr_notices = [InformationMessage m],
            rr_edits = snd (addExport (ev_text ed) (ev_line ed) info) @ [e]\<rparr>"
proof -
  from assms obtain ed info where ed: "editor = Some ed"
    and f: "js_endsWith (ev_fileName ed) ''.smiles.js''"
    and i: "findExportAtLine (ev_text ed) (ev_line ed) = Some info"
    and n: "\<not> loadOrLookupFails h ed info" "\<not> lacksCodeGeneration h ed info"
      "\<not> generationThrows h ed info"
    by (auto simp: refactor_fails_def split: option.splits)
  obtain body es where ae: "addExport (ev_text ed) (ev_line ed) info = (body, es)"
    by (cases "addExport (ev_text ed) (ev_line ed) info")
  from n(1) have t: "truthy (loadModule h (ev_fileName ed))"
    "truthy (get_prop (loadModule h (ev_fileName ed)) (ci_name info))"
    by (simp_all add: loadOrLookupFails_def)
  from n(2) obtain toCode
    where g: "get_prop (get_prop (loadModule h (ev_fileName ed)) (ci_name info)) ''toCode''
                = JFun toCode"
    by (auto simp: lacksCodeGeneration_def generator_def split: jsval.splits)
  with n(3) obtain code where c: "toCode (ci_name info) = Inr code"
    by (auto simp: generationThrows_def generator_def split: sum.splits)
  from ed f i ae t g c have "refactorMolecule h editor
         = \<lparr>rr_notices = [InformationMessage (''Refactored '' @ dq @ ci_name info @ dq
                                              @ '' to constructor code'')],
            rr_edits = snd (addExport (ev_text ed) (ev_line ed) info)
                       @ [spliceEdit body (ev_line ed) (ci_name info) code]\<rparr>"
    by (simp add: refactorMolecule_def Let_def)
  with ed i show ?thesis by blast
qed

text \<open>
  Claim C6, amended. An invocation of the refactor command fails when there is no
  editor, the file is not a build-format file, no declaration is found on the line, the
  module cannot be loaded or has no export of the declared name, the export has no
  \<^verbatim>\<open>toCode\<close> function, or \<^verbatim>\<open>toCode\<close> throws. Every such invocation shows exactly
  one error message and makes neither the import splice nor the code splice. When
  there is no editor, the file is not a build-format file or no declaration is found,
  nothing is done to the document. When a declaration is found, the document is saved,
  and before that the export marker is inserted if the declaration lacks it; this
  insertion stays when the load, the lookup of the export, the test for \<^verbatim>\<open>toCode\<close>
  or the generation fails afterwards. So the text of the document is unmodified by a
  failing invocation whenever the declaration, if found, has its export marker already.
\<close>

theorem refactor_failure_one_message:
  assumes "refactor_fails h editor"
  shows "(\<exists>m. rr_notices (refactorMolecule h editor) = [ErrorMessage m])
    \<and> ((\<forall>ed info. editor = Some ed \<and> js_endsWith (ev_fileName ed) ''.smiles.js'' \<longrightarrow>
            findExportAtLine (ev_text ed) (ev_line ed) \<noteq> Some info)
         \<longrightarrow> rr_edits (refactorMolecule h editor) = [])
    \<and> (\<forall>ed info. editor = Some ed \<and> js_endsWith (ev_fileName ed) ''.smiles.js''
          \<and> findExportAtLine (ev_text ed) (ev_line ed) = Some info \<longrightarrow>
          rr_edits (refactorMolecule h editor)
            = (if needsExport info
               then [Edit [(ev_line ed, (case constPosition info of Some c \<Rightarrow> c | None \<Rightarrow> 0),
                            ''export '')], Save]
               else [Save]))
    \<and> ((\<forall>ed info. editor = Some ed \<and> js_endsWith (ev_fileName ed) ''.smiles.js''
            \<and> findExportAtLine (ev_text ed) (ev_line ed) = Some info \<longrightarrow> \<not> needsExport info)
         \<longrightarrow> \<not> modifies_text (rr_edits (refactorMolecule h editor)))"
proof (cases "\<exists>ed info. editor = Some ed \<and> js_endsWith (ev_fileName ed) ''.smiles.js''
                \<and> findExportAtLine (ev_text ed) (ev_line ed) = Some info")
  case False
  have "\<exists>m. refactorMolecule h editor = \<lparr>rr_notices = [ErrorMessage m], rr_edits = []\<rparr>"
  proof (cases editor)
    case None
    then show ?thesis by (simp add: refactor_no_editor)
  next
    case (Some ed)
    show ?thesis
    proof (cases "js_endsWith (ev_fileName ed) ''.smiles.js''")
      case no: False
      with Some show ?thesis by (simp add: refactor_other_file)
    next
      case True
      with Some False have "findExportAtLine (ev_text ed) (ev_line ed) = None"
        by (cases "findExportAtLine (ev_text ed) (ev_line ed)") simp_all
      with Some True show ?thesis by (simp add: refactor_no_declaration)
    qed
  qed
  then obtain m
    where r: "refactorMolecule h editor = \<lparr>rr_notices = [ErrorMessage m], rr_edits = []\<rparr>"
    by blast
  then have "\<exists>m. rr_notices (refactorMolecule h editor) = [ErrorMessage m]" by simp
  moreover from r have "rr_edits (refactorMolecule h editor) = []" by simp
  moreover from r have "\<not> modifies_text (rr_edits (refactorMolecule h editor))"
    by (simp add: modifies_text_def)
  ultimately show ?thesis using False by blast
next
  case True
  then obtain ed info where f: "editor = Some ed" "js_endsWith (ev_fileName ed) ''.smiles.js''"
    "findExportAtLine (ev_text ed) (ev_line ed) = Some info" by blast
  with assms have c: "loadOrLookupFails h ed info \<or> lacksCodeGeneration h ed info
      \<or> generationThrows h ed info"
    by (simp add: refactor_fails_def)
  have "\<exists>m. refactorMolecule h (Some ed)
            = \<lparr>rr_notices = [ErrorMessage m],
               rr_edits = snd (addExport (ev_text ed) (ev_line ed) info)\<rparr>"
  proof (cases "loadOrLookupFails h ed info")
    case True
    from refactor_load_fails[OF f(2,3) True] show ?thesis by blast
  next
    case nl: False
    show ?thesis
    proof (cases "lacksCodeGeneration h ed info")
      case True
      from refactor_no_generator[OF f(2,3) nl True] show ?thesis by blast
    next
      case False
      with nl c have "generationThrows h ed info" by simp
      from refactor_generation_throws[OF f(2,3) nl this] show ?thesis by blast
    qed
  qed
  with f(1) obtain m
    where r: "refactorMolecule h editor
            = \<lparr>rr_notices = [ErrorMessage m],
               rr_edits = snd (addExport (ev_text ed) (ev_line ed) info)\<rparr>"
    by blast
  have a: "\<exists>m. rr_notices (refactorMolecule h editor) = [ErrorMessage m]"
    using r by simp
  have b: "\<forall>ed' info'. editor = Some ed' \<and> js_endsWith (ev_fileName ed') ''.smiles.js''
          \<and> findExportAtLine (ev_text ed') (ev_line ed') = Some info' \<longrightarrow>
          rr_edits (refactorMolecule h editor)
            = (if needsExport info'
               then [Edit [(ev_line ed', (case constPosition info' of Some c \<Rightarrow> c | None \<Rightarrow> 0),
                            ''export '')], Save]
               else [Save])"
    using r f by (simp add: addExport_edits)
  have c: "(\<forall>ed info. editor = Some ed \<and> js_endsWith (ev_fileName ed) ''.smiles.js''
            \<and> findExportAtLine (ev_text ed) (ev_line ed) = Some info \<longrightarrow> \<not> needsExport info)
         \<longrightarrow> \<not> modifies_text (rr_edits (refactorMolecule h editor))"
    using r f by (simp add: addExport_edits modifies_text_def)
  have d: "(\<forall>ed info. editor = Some ed \<and> js_endsWith (ev_fileName ed) ''.smiles.js'' \<longrightarrow>
            findExportAtLine (ev_text ed) (ev_line ed) \<noteq> Some info)
         \<longrightarrow> rr_edits (refactorMolecule h editor) = []"
    using f by blast
  from a b c d show ?thesis by blast
qed

lemma exported_water_found:
  "findExportAtLine water_line 0
     = Some \<lparr>ci_name = ''water'', needsExport = False, constPosition = None\<rparr>"
  unfolding water_line_def sq_def by code_simp

text \<open>
  The three failures after the export step, each at a host of its own: the import
  throws, \<^verbatim>\<open>toCode\<close> is a string, \<^verbatim>\<open>toCode\<close> throws.
\<close>

lemma exported_water_load_fails:
  "refactorMolecule failing_loader (Some exported_water_editor)
     = \<lparr>rr_notices = [ErrorMessage (''Could not load export '' @ dq @ ''water'' @ dq)],
        rr_edits = [Save]\<rparr>"
  by (simp add: refactorMolecule_def exported_water_editor_def js_endsWith_def
      exported_water_found loadModule_def failing_loader_def Let_def addExport_def)

lemma exported_water_no_generator:
  "refactorMolecule plain_exports (Some exported_water_editor)
     = \<lparr>rr_notices = [ErrorMessage (''Export '' @ dq @ ''water'' @ dq
                                      @ '' does not have a toCode() method'')],
        rr_edits = [Save]\<rparr>"
  by (simp add: refactorMolecule_def exported_water_editor_def js_endsWith_def
      exported_water_found loadModule_def plain_exports_def plain_module_def Let_def
      addExport_def)

lemma exported_water_throws:
  "refactorMolecule throwing_generator (Some exported_water_editor)
     = \<lparr>rr_notices = [ErrorMessage ''Failed to generate code: no atoms''], rr_edits = [Save]\<rparr>"
  by (simp add: refactorMolecule_def exported_water_editor_def js_endsWith_def
      exported_water_found loadModule_def throwing_generator_def throwing_module_def Let_def
      addExport_def)

lemma exported_water_fails: "refactor_fails throwing_generator (Some exported_water_editor)"
  by (simp add: refactor_fails_def exported_water_editor_def js_endsWith_def
      exported_water_found generationThrows_def generator_def loadModule_def
      throwing_generator_def throwing_module_def)

theorem refactor_failure_one_message_witness:
  "refactor_fails throwing_generator (Some exported_water_editor)
   \<and> rr_notices (refactorMolecule throwing_generator (Some exported_water_editor))
       = [ErrorMessage ''Failed to generate code: no atoms'']
   \<and> rr_edits (refactorMolecule throwing_generator (Some exported_water_editor)) = [Save]
   \<and> \<not> modifies_text (rr_edits (refactorMolecule throwing_generator (Some exported_water_editor)))"
proof -
  have g: "js_endsWith (ev_fileName exported_water_editor) ''.smiles.js''"
    "findExportAtLine (ev_text exported_water_editor) (ev_line exported_water_editor)
       = Some \<lparr>ci_name = ''water'', needsExport = False, constPosition = None\<rparr>"
    by (simp_all add: exported_water_editor_def js_endsWith_def exported_water_found)
  from refactor_failure_one_message[OF exported_water_fails] g
  have "rr_edits (refactorMolecule throwing_generator (Some exported_water_editor)) = [Save]"
    by simp
  moreover from refactor_failure_one_message[OF exported_water_fails] g
  have "\<not> modifies_text (rr_edits (refactorMolecule throwing_generator (Some exported_water_editor)))"
    by (simp add: modifies_text_def)
  ultimately show ?thesis using exported_water_fails by (simp add: exported_water_throws)
qed

subsection \<open>The round-trip checker: captures lie in the match\<close>



lemma indexOf_ge: "- 1 \<le> js_indexOf u t"
  by (induction u) (auto simp: Let_def)







subsection \<open>The round-trip checker: each pattern extracts at increasing positions\<close>





subsection \<open>The round-trip checker: an entry is the literal at its quote\<close>



























subsection \<open>The round-trip checker: what both patterns reach is extracted twice\<close>











subsection \<open>The module cache when loads overlap\<close>

text \<open>
  A call begins as \<open>loadBegin\<close> says. Whatever the order in which overlapping calls
  begin and their imports settle, the cache has at most one entry, and a call that hits
  returns exports that a call for the same file imported after it had read the same
  modification time.
\<close>

lemma loadSmilesModule_begin:
  "(loadBegin h cache p = Threw err \<longrightarrow>
      loadSmilesModule h cache p = (Inl err, cache, [StatSync p]))
   \<and> (loadBegin h cache p = Returned r \<longrightarrow>
      fst (loadSmilesModule h cache p) = Inr r \<and> fst (snd (loadSmilesModule h cache p)) = cache)
   \<and> (loadBegin h cache p = Awaiting key \<longrightarrow>
      loadSmilesModule h cache p =
        (case loadFresh h p key of
           (r, cache', ops) \<Rightarrow> (Inr r, cache', [StatSync p, CacheHas key] @ ops)))"
  by (auto simp: loadSmilesModule_def loadBegin_def Let_def split: sum.splits option.splits)

lemma imported_at_snoc: "imported_at events p t m \<Longrightarrow> imported_at (events @ [e]) p t m"
  unfolding imported_at_def by auto

lemma entries_imported_snoc:
  "entries_imported events cache \<Longrightarrow> entries_imported (events @ [e]) cache"
  unfolding entries_imported_def by (meson imported_at_snoc)

lemma entries_imported_empty: "entries_imported events Map.empty"
  by (simp add: entries_imported_def)

lemma entries_imported_single:
  "imported_at events p t m \<Longrightarrow> entries_imported events [cacheKey p t \<mapsto> m]"
  unfolding entries_imported_def by (auto split: if_splits)

lemma waiting_called_snoc:
  "waiting_called events waiting \<Longrightarrow> waiting_called (events @ [e]) waiting"
  unfolding waiting_called_def by auto

lemma waiting_called_subset:
  "waiting_called events waiting \<Longrightarrow> set ws \<subseteq> set waiting \<Longrightarrow> waiting_called events ws"
  unfolding waiting_called_def by blast

lemma waiting_called_add:
  assumes "waiting_called events waiting" and "Call h p \<in> set events"
    and "requirePurge h p = None" and "statSync h p = Inr t"
  shows "waiting_called events (waiting @ [(h, p, cacheKey p t)])"
  using assms unfolding waiting_called_def by auto

lemma waiting_called_nth:
  assumes "waiting_called events waiting" and "i < length waiting" and "waiting ! i = (h, p, key)"
  shows "Call h p \<in> set events \<and> requirePurge h p = None
    \<and> (\<exists>t. statSync h p = Inr t \<and> key = cacheKey p t)"
proof -
  from assms(2,3) have "(h, p, key) \<in> set waiting" by (metis nth_mem)
  with assms(1) show ?thesis unfolding waiting_called_def by blast
qed

lemma without_nth_subset: "set (take i ws @ drop (Suc i) ws) \<subseteq> set ws"
  by (auto dest: in_set_takeD in_set_dropD)

lemma overlap_inv_step:
  assumes "overlap_inv events s"
  shows "overlap_inv (events @ [e]) (overlap_step s e)"
proof -
  obtain cache waiting where s: "s = (cache, waiting)" by (cases s)
  from assms s have fin: "finite (dom cache)" "card (dom cache) \<le> 1"
    and ent: "entries_imported (events @ [e]) cache"
    and wt: "waiting_called (events @ [e]) waiting"
    by (simp_all add: overlap_inv_def entries_imported_snoc waiting_called_snoc)
  have same: "overlap_inv (events @ [e]) (cache, waiting)"
    using fin ent wt by (simp add: overlap_inv_def)
  have emptied: "overlap_inv (events @ [e]) (Map.empty, ws)" if "set ws \<subseteq> set waiting" for ws
    using waiting_called_subset[OF wt that] by (simp add: overlap_inv_def entries_imported_empty)
  show ?thesis
  proof (cases e)
    case (Call h p)
    show ?thesis
    proof (cases "loadBegin h cache p")
      case (Awaiting key)
      then obtain t where t: "statSync h p = Inr t" "key = cacheKey p t"
        by (auto simp: loadBegin_def split: sum.splits option.splits)
      show ?thesis
      proof (cases "requirePurge h p")
        case None
        have "Call h p \<in> set (events @ [e])" using Call by simp
        from waiting_called_add[OF wt this None t(1)] fin ent
        have "overlap_inv (events @ [e]) (cache, waiting @ [(h, p, key)])"
          by (simp add: overlap_inv_def t(2))
        with s Call Awaiting None show ?thesis by simp
      next
        case (Some err)
        with s Call Awaiting emptied[of waiting] show ?thesis by simp
      qed
    qed (use s Call same in simp_all)
  next
    case (Settle i)
    show ?thesis
    proof (cases "i < length waiting")
      case False
      with s Settle same show ?thesis by simp
    next
      case True
      obtain h p key where w: "waiting ! i = (h, p, key)" by (cases "waiting ! i")
      from waiting_called_nth[OF wt True w] obtain t
        where c: "Call h p \<in> set (events @ [e])" "requirePurge h p = None"
          "statSync h p = Inr t" "key = cacheKey p t" by blast
      let ?ws = "take i waiting @ drop (Suc i) waiting"
      show ?thesis
      proof (cases "dynamicImport h p")
        case (Inl err)
        with s Settle True w emptied[OF without_nth_subset] show ?thesis by simp
      next
        case (Inr m)
        from c Inr have "imported_at (events @ [e]) p t m"
          unfolding imported_at_def by blast
        from entries_imported_single[OF this] waiting_called_subset[OF wt without_nth_subset]
        have "overlap_inv (events @ [e]) ([key \<mapsto> m], ?ws)"
          by (simp add: overlap_inv_def c(4))
        with s Settle True w Inr show ?thesis by simp
      qed
    qed
  qed
qed

lemma overlapped_inv: "overlap_inv events (overlapped events)"
proof (induction events rule: rev_induct)
  case Nil
  show ?case
    by (simp add: overlapped_def overlap_inv_def entries_imported_def waiting_called_def)
next
  case (snoc e events)
  from overlap_inv_step[OF snoc, of e] show ?case by (simp add: overlapped_def)
qed

lemma overlapping_loads_single_keyed:
  fixes events :: "'a load_event list" and h :: "'a loader_host_scheme"
  shows "finite (dom (fst (overlapped events))) \<and> card (dom (fst (overlapped events))) \<le> 1
   \<and> (loadBegin h (fst (overlapped events)) p = Returned r \<and> statSync h p = Inr t
         \<longrightarrow> imported_at events p t (lr_module r))"
proof -
  note i = overlapped_inv[of events]
  have hit: "imported_at events p t (lr_module r)"
    if a: "loadBegin h (fst (overlapped events)) p = Returned r" and b: "statSync h p = Inr t"
  proof -
    from a b have "fst (overlapped events) (cacheKey p t) = Some (lr_module r)"
      by (auto simp: loadBegin_def split: option.splits)
    with i obtain q u where "cacheKey p t = cacheKey q u" "imported_at events q u (lr_module r)"
      unfolding overlap_inv_def entries_imported_def by blast
    with cacheKey_inj[of p t q u] show ?thesis by simp
  qed
  from i have f: "finite (dom (fst (overlapped events)))" "card (dom (fst (overlapped events))) \<le> 1"
    by (simp_all add: overlap_inv_def)
  from f hit show ?thesis by blast
qed

end
